theory Spec2Isabelle
  imports Complex_Main
begin

section \<open>Numbers\<close>

text \<open>
  JavaScript numbers are modelled as exact reals: the rounding error of binary floating
  point is idealised away, and so are \<open>NaN\<close> and the infinities. Where the source can
  read a text field that holds no number, the parse result is an \<open>int option\<close>
  (\<open>None\<close> for \<open>NaN\<close>). \<open>Math.round\<close> rounds halves upwards: it is
  \<open>\<lfloor>x + 1/2\<rfloor>\<close>.
  Where the exact value handed to \<open>Math.round\<close> ends in one half, the floating-point
  value of the source can lie just below it, and the source's result is then one less
  than the model's: \<open>hslToRgb(-238, 100, 50)\<close> has blue 8 in the source and 9 here,
  \<open>hslToRgb(122, 100, 50)\<close> has blue 9 in both. The comparison of \<open>hslToRgb\<close> at a hue
  and at that hue modulo 360 is therefore stated up to one unit per channel.
\<close>

definition Math_round :: "real \<Rightarrow> int" where
  "Math_round x = \<lfloor>x + 1 / 2\<rfloor>"

text \<open>The remainder operator \<open>%\<close> takes the sign of the dividend.\<close>

definition js_rem :: "int \<Rightarrow> int \<Rightarrow> int" where
  "js_rem a m = (if 0 \<le> a then a mod \<bar>m\<bar> else - ((- a) mod \<bar>m\<bar>))"

definition js_trunc :: "real \<Rightarrow> int" where
  "js_trunc x = (if 0 \<le> x then \<lfloor>x\<rfloor> else \<lceil>x\<rceil>)"

definition js_fmod :: "real \<Rightarrow> real \<Rightarrow> real" where
  "js_fmod a m = a - m * of_int (js_trunc (a / m))"

text \<open>\<open>parseInt(v) || 0\<close>: \<open>NaN\<close> (and \<open>0\<close>) give \<open>0\<close>.\<close>

definition or_zero :: "int option \<Rightarrow> int" where
  "or_zero v = (case v of None \<Rightarrow> 0 | Some n \<Rightarrow> n)"

section \<open>ColorUtils (script.js)\<close>

record rgb =
  rgb_r :: int
  rgb_g :: int
  rgb_b :: int

record hsl =
  hsl_h :: int
  hsl_s :: int
  hsl_l :: int

subsection \<open>Hex strings\<close>

text \<open>The character class \<open>[a-f\d]\<close> under the flag \<open>i\<close>.\<close>

definition hex_digits :: string where
  "hex_digits = ''0123456789abcdef''"

definition hex_table :: "(char \<times> nat) list" where
  "hex_table =
     [(CHR ''0'', 0), (CHR ''1'', 1), (CHR ''2'', 2), (CHR ''3'', 3), (CHR ''4'', 4),
      (CHR ''5'', 5), (CHR ''6'', 6), (CHR ''7'', 7), (CHR ''8'', 8), (CHR ''9'', 9),
      (CHR ''a'', 10), (CHR ''b'', 11), (CHR ''c'', 12), (CHR ''d'', 13), (CHR ''e'', 14),
      (CHR ''f'', 15), (CHR ''A'', 10), (CHR ''B'', 11), (CHR ''C'', 12), (CHR ''D'', 13),
      (CHR ''E'', 14), (CHR ''F'', 15)]"

definition hex_digit_val :: "char \<Rightarrow> nat option" where
  "hex_digit_val c = map_of hex_table c"

text \<open>One capture group \<open>([a-f\d]{2})\<close> read by \<open>parseInt(_, 16)\<close>.\<close>

definition parse_hex_pair :: "char \<Rightarrow> char \<Rightarrow> int option" where
  "parse_hex_pair c d =
     (case (hex_digit_val c, hex_digit_val d) of
        (Some x, Some y) \<Rightarrow> Some (int (16 * x + y))
      | _ \<Rightarrow> None)"

text \<open>
  \<open>hexToRgb\<close>: the regular expression \<open>/^#?([a-f\d]{2})([a-f\d]{2})([a-f\d]{2})$/i\<close>;
  \<open>null\<close> is \<open>None\<close>.
\<close>

definition strip_hash :: "string \<Rightarrow> string" where
  "strip_hash s = (case s of [] \<Rightarrow> [] | c # t \<Rightarrow> if c = CHR ''#'' then t else s)"

definition hexToRgb :: "string \<Rightarrow> rgb option" where
  "hexToRgb hex =
     (case strip_hash hex of
        [c1, c2, c3, c4, c5, c6] \<Rightarrow>
          (case (parse_hex_pair c1 c2, parse_hex_pair c3 c4, parse_hex_pair c5 c6) of
             (Some x, Some y, Some z) \<Rightarrow> Some \<lparr>rgb_r = x, rgb_g = y, rgb_b = z\<rparr>
           | _ \<Rightarrow> None)
      | _ \<Rightarrow> None)"

text \<open>\<open>Number.prototype.toString(16)\<close> on a non-negative integer.\<close>

fun toString16 :: "nat \<Rightarrow> string" where
  "toString16 n =
     (if n < 16 then [hex_digits ! n]
      else toString16 (n div 16) @ [hex_digits ! (n mod 16)])"

definition toHex :: "real \<Rightarrow> string" where
  "toHex n =
     (let hex = toString16 (nat (Math_round (max 0 (min 255 n))))
      in if length hex = 1 then ''0'' @ hex else hex)"

definition rgbToHex :: "real \<Rightarrow> real \<Rightarrow> real \<Rightarrow> string" where
  "rgbToHex r g b = ''#'' @ toHex r @ toHex g @ toHex b"

declare toString16.simps [simp del]

subsection \<open>RGB and HSL\<close>

text \<open>
  \<open>rgbToHsl\<close>. The \<open>switch (max)\<close> compares with \<open>===\<close> and takes the first
  case that matches. The divisors \<open>2 - max - min\<close> and \<open>max + min\<close> are not zero
  when the channels lie in \<open>[0,255]\<close>; outside that range the source can divide by
  zero, which this model does not represent.
\<close>

definition rgbToHsl :: "real \<Rightarrow> real \<Rightarrow> real \<Rightarrow> hsl" where
  "rgbToHsl r0 g0 b0 =
     (let r = r0 / 255; g = g0 / 255; b = b0 / 255;
          mx = max (max r g) b;
          mn = min (min r g) b;
          l = (mx + mn) / 2
      in if mx = mn
         then \<lparr>hsl_h = Math_round (0 * 360), hsl_s = Math_round (0 * 100),
               hsl_l = Math_round (l * 100)\<rparr>
         else
           let d = mx - mn;
               s = (if l > 1 / 2 then d / (2 - mx - mn) else d / (mx + mn));
               h = (if mx = r then (g - b) / d + (if g < b then 6 else 0)
                    else if mx = g then (b - r) / d + 2
                    else (r - g) / d + 4) / 6
           in \<lparr>hsl_h = Math_round (h * 360), hsl_s = Math_round (s * 100),
                hsl_l = Math_round (l * 100)\<rparr>)"

definition hue2rgb :: "real \<Rightarrow> real \<Rightarrow> real \<Rightarrow> real" where
  "hue2rgb p q t0 =
     (let t1 = (if t0 < 0 then t0 + 1 else t0);
          t = (if t1 > 1 then t1 - 1 else t1)
      in if t < 1 / 6 then p + (q - p) * 6 * t
         else if t < 1 / 2 then q
         else if t < 2 / 3 then p + (q - p) * (2 / 3 - t) * 6
         else p)"

text \<open>The three channels of \<open>hslToRgb\<close> before \<open>Math.round(_ * 255)\<close>.\<close>

definition hslToRgb_raw :: "real \<Rightarrow> real \<Rightarrow> real \<Rightarrow> real \<times> real \<times> real" where
  "hslToRgb_raw h0 s0 l0 =
     (let h = h0 / 360; s = s0 / 100; l = l0 / 100
      in if s = 0 then (l, l, l)
         else
           let q = (if l < 1 / 2 then l * (1 + s) else l + s - l * s);
               p = 2 * l - q
           in (hue2rgb p q (h + 1 / 3), hue2rgb p q h, hue2rgb p q (h - 1 / 3)))"

definition hslToRgb :: "real \<Rightarrow> real \<Rightarrow> real \<Rightarrow> rgb" where
  "hslToRgb h s l =
     (case hslToRgb_raw h s l of
        (r, g, b) \<Rightarrow>
          \<lparr>rgb_r = Math_round (r * 255), rgb_g = Math_round (g * 255),
           rgb_b = Math_round (b * 255)\<rparr>)"

subsection \<open>Contrast\<close>

definition linear_channel :: "real \<Rightarrow> real" where
  "linear_channel c0 =
     (let c = c0 / 255
      in if c \<le> 3928 / 100000 then c / (1292 / 100)
         else ((c + 55 / 1000) / (1055 / 1000)) powr (24 / 10))"

definition relativeLuminance :: "real \<Rightarrow> real \<Rightarrow> real \<Rightarrow> real" where
  "relativeLuminance r g b =
     2126 / 10000 * linear_channel r + 7152 / 10000 * linear_channel g
       + 722 / 10000 * linear_channel b"

definition contrastRatio :: "rgb \<Rightarrow> rgb \<Rightarrow> real" where
  "contrastRatio rgb1 rgb2 =
     (let l1 = relativeLuminance (of_int (rgb_r rgb1)) (of_int (rgb_g rgb1)) (of_int (rgb_b rgb1));
          l2 = relativeLuminance (of_int (rgb_r rgb2)) (of_int (rgb_g rgb2)) (of_int (rgb_b rgb2));
          lighter = max l1 l2;
          darker = min l1 l2
      in (lighter + 5 / 100) / (darker + 5 / 100))"

subsection \<open>Harmonies\<close>

record harmony =
  har_hex :: string
  har_rgb :: rgb
  har_hsl :: hsl

definition harmony_hsls :: "hsl \<Rightarrow> string \<Rightarrow> hsl list" where
  "harmony_hsls c type =
     (let h = hsl_h c; s = hsl_s c; l = hsl_l c
      in if type = ''complementary'' then
           [\<lparr>hsl_h = h, hsl_s = s, hsl_l = l\<rparr>,
            \<lparr>hsl_h = js_rem (h + 180) 360, hsl_s = s, hsl_l = l\<rparr>]
         else if type = ''analogous'' then
           [\<lparr>hsl_h = js_rem (h - 30 + 360) 360, hsl_s = s, hsl_l = l\<rparr>,
            \<lparr>hsl_h = js_rem (h - 15 + 360) 360, hsl_s = s, hsl_l = l\<rparr>,
            \<lparr>hsl_h = h, hsl_s = s, hsl_l = l\<rparr>,
            \<lparr>hsl_h = js_rem (h + 15) 360, hsl_s = s, hsl_l = l\<rparr>,
            \<lparr>hsl_h = js_rem (h + 30) 360, hsl_s = s, hsl_l = l\<rparr>]
         else if type = ''triadic'' then
           [\<lparr>hsl_h = h, hsl_s = s, hsl_l = l\<rparr>,
            \<lparr>hsl_h = js_rem (h + 120) 360, hsl_s = s, hsl_l = l\<rparr>,
            \<lparr>hsl_h = js_rem (h + 240) 360, hsl_s = s, hsl_l = l\<rparr>]
         else if type = ''tetradic'' then
           [\<lparr>hsl_h = h, hsl_s = s, hsl_l = l\<rparr>,
            \<lparr>hsl_h = js_rem (h + 90) 360, hsl_s = s, hsl_l = l\<rparr>,
            \<lparr>hsl_h = js_rem (h + 180) 360, hsl_s = s, hsl_l = l\<rparr>,
            \<lparr>hsl_h = js_rem (h + 270) 360, hsl_s = s, hsl_l = l\<rparr>]
         else [])"

definition generateHarmonies :: "hsl \<Rightarrow> string \<Rightarrow> harmony list" where
  "generateHarmonies c type =
     map (\<lambda>hslColor.
            let rgb = hslToRgb (of_int (hsl_h hslColor)) (of_int (hsl_s hslColor))
                        (of_int (hsl_l hslColor))
            in \<lparr>har_hex = rgbToHex (of_int (rgb_r rgb)) (of_int (rgb_g rgb)) (of_int (rgb_b rgb)),
                har_rgb = rgb, har_hsl = hslColor\<rparr>)
         (harmony_hsls c type)"

section \<open>ColorPicker (script.js)\<close>

text \<open>
  The session object. Besides \<open>currentColor\<close>, \<open>currentAlpha\<close>, \<open>isDragging\<close> and
  \<open>savedPalettes\<close>, the handlers read back what the page's controls hold, so these are part
  of the state: the hue slider's value, the hex field's text, and for the RGB and HSL
  number fields the result of \<open>parseInt\<close> on their text (\<open>None\<close> when it is \<open>NaN\<close>).
  The markup is not part of the sources; the hue slider is taken to range over 0..360.
\<close>

record palette =
  pal_id :: "string option"
  pal_name :: string
  pal_colors :: "string list"
  pal_created :: string

text \<open>
  The property \<open>savedPalettes\<close>. The constructor first assigns it the array read from
  local storage, and \<open>initializeElements\<close> then assigns the element with id
  \<open>savedPalettes\<close> to the same property (script.js line 215, part_000 line 45), the
  container that \<open>renderSavedPalettes\<close> fills. That element is not iterable and has
  none of the array methods, so spreading it, and calling \<open>find\<close>, \<open>push\<close>, \<open>map\<close> or
  \<open>forEach\<close> on it, throws a \<open>TypeError\<close>. What local storage holds under the
  palettes' key is the field \<open>storedPalettes\<close>.
\<close>

datatype 'p palettes = PaletteArray "'p list" | ContainerElement

type_synonym fields3 = "int option \<times> int option \<times> int option"

record picker =
  currentColor :: rgb
  currentAlpha :: real
  isDragging :: bool
  savedPalettes :: "palette palettes"
  storedPalettes :: "palette list"
  hueSlider :: int
  hexInput :: string
  rgbInputs :: fields3
  hslInputs :: fields3

datatype wcag = AAA | AA | FAIL

text \<open>What \<open>updateColor\<close> and \<open>updateContrastInfo\<close> compute for the display.\<close>

record viewUpdate =
  view_hex :: string
  view_rgb :: rgb
  view_hsl :: hsl
  contrastWhite :: "real \<times> wcag"
  contrastBlack :: "real \<times> wcag"

definition white :: rgb where
  "white = \<lparr>rgb_r = 255, rgb_g = 255, rgb_b = 255\<rparr>"

definition black :: rgb where
  "black = \<lparr>rgb_r = 0, rgb_g = 0, rgb_b = 0\<rparr>"

definition updateWcagBadge :: "real \<Rightarrow> wcag" where
  "updateWcagBadge ratio =
     (if ratio \<ge> 7 then AAA else if ratio \<ge> 45 / 10 then AA else FAIL)"

definition updateContrastInfo :: "picker \<Rightarrow> (real \<times> wcag) \<times> (real \<times> wcag)" where
  "updateContrastInfo st =
     (let currentRgb = currentColor st;
          whiteContrast = contrastRatio currentRgb white;
          blackContrast = contrastRatio currentRgb black
      in ((whiteContrast, updateWcagBadge whiteContrast),
          (blackContrast, updateWcagBadge blackContrast)))"

definition view :: "picker \<Rightarrow> viewUpdate" where
  "view st =
     (let c = currentColor st;
          hexv = rgbToHex (of_int (rgb_r c)) (of_int (rgb_g c)) (of_int (rgb_b c));
          hslv = rgbToHsl (of_int (rgb_r c)) (of_int (rgb_g c)) (of_int (rgb_b c))
      in \<lparr>view_hex = hexv, view_rgb = c, view_hsl = hslv,
          contrastWhite = fst (updateContrastInfo st),
          contrastBlack = snd (updateContrastInfo st)\<rparr>)"

text \<open>
  \<open>updateColor(updateHex, updateRgb, updateHsl)\<close>: the fields of the channel that
  originated the edit are not rewritten; the hue slider always is.
\<close>

definition updateColor :: "bool \<Rightarrow> bool \<Rightarrow> bool \<Rightarrow> picker \<Rightarrow> picker" where
  "updateColor updateHex updateRgb updateHsl st =
     (let c = currentColor st;
          hexv = rgbToHex (of_int (rgb_r c)) (of_int (rgb_g c)) (of_int (rgb_b c));
          hslv = rgbToHsl (of_int (rgb_r c)) (of_int (rgb_g c)) (of_int (rgb_b c))
      in st\<lparr>hexInput := (if updateHex then hexv else hexInput st),
             rgbInputs := (if updateRgb then (Some (rgb_r c), Some (rgb_g c), Some (rgb_b c))
                           else rgbInputs st),
             hslInputs := (if updateHsl then (Some (hsl_h hslv), Some (hsl_s hslv), Some (hsl_l hslv))
                           else hslInputs st),
             hueSlider := hsl_h hslv\<rparr>)"

text \<open>
  The constructor; \<open>stored\<close> is what \<open>loadPalettes\<close> reads from local storage. The array
  is assigned to \<open>savedPalettes\<close> and replaced by the element in \<open>initializeElements\<close>.
  The first \<open>updateColor()\<close> overwrites all four controls, so their initial contents do
  not matter. The call of \<open>renderSavedPalettes\<close> that follows throws on the element;
  the listeners are installed by then, and the session goes on from the state that
  \<open>updateColor()\<close> left.
\<close>

definition constructor :: "palette list \<Rightarrow> picker" where
  "constructor stored =
     updateColor True True True
       \<lparr>currentColor = \<lparr>rgb_r = 79, rgb_g = 70, rgb_b = 229\<rparr>,
        currentAlpha = 1, isDragging = False, savedPalettes = ContainerElement,
        storedPalettes = stored, hueSlider = 0, hexInput = [], rgbInputs = (None, None, None),
        hslInputs = (None, None, None)\<rparr>"

text \<open>
  \<open>handleFieldDrag\<close>: \<open>px\<close> and \<open>py\<close> are \<open>clientX - rect.left\<close> and
  \<open>clientY - rect.top\<close>, \<open>width\<close> and \<open>height\<close> those of the field's rectangle.
\<close>

definition handleFieldDrag :: "real \<Rightarrow> real \<Rightarrow> real \<Rightarrow> real \<Rightarrow> picker \<Rightarrow> picker" where
  "handleFieldDrag px py width height st =
     (if \<not> isDragging st then st
      else
        let x = max 0 (min width px);
            y = max 0 (min height py);
            saturation = Math_round (x / width * 100);
            lightness = Math_round (100 - y / height * 100);
            hue = hueSlider st;
            c = hslToRgb (of_int hue) (of_int saturation) (of_int lightness)
        in updateColor True True True (st\<lparr>currentColor := c\<rparr>))"

definition startFieldDrag :: "real \<Rightarrow> real \<Rightarrow> real \<Rightarrow> real \<Rightarrow> picker \<Rightarrow> picker" where
  "startFieldDrag px py width height st =
     handleFieldDrag px py width height (st\<lparr>isDragging := True\<rparr>)"

definition stopFieldDrag :: "picker \<Rightarrow> picker" where
  "stopFieldDrag st = st\<lparr>isDragging := False\<rparr>"

text \<open>
  \<open>handleFieldKeydown\<close>: saturation and lightness are read from the HSL fields with a
  bare \<open>parseInt\<close>, and \<open>Math.max\<close> and \<open>Math.min\<close> pass \<open>NaN\<close> on. When one of
  them is \<open>NaN\<close>, all three channels of the new colour are \<open>NaN\<close>; the state type
  does not hold such a colour, and the result is \<open>None\<close>.
\<close>

datatype key = ArrowLeft | ArrowRight | ArrowUp | ArrowDown | OtherKey

definition handleFieldKeydown :: "key \<Rightarrow> bool \<Rightarrow> picker \<Rightarrow> picker option" where
  "handleFieldKeydown k shiftKey st =
     (let step = (if shiftKey then 10 else 1)
      in case k of
           OtherKey \<Rightarrow> Some st
         | _ \<Rightarrow>
             (case hslInputs st of
                (_, Some saturation0, Some lightness0) \<Rightarrow>
                  let saturation = (case k of
                                      ArrowLeft \<Rightarrow> max 0 (saturation0 - step)
                                    | ArrowRight \<Rightarrow> min 100 (saturation0 + step)
                                    | _ \<Rightarrow> saturation0);
                      lightness = (case k of
                                     ArrowUp \<Rightarrow> min 100 (lightness0 + step)
                                   | ArrowDown \<Rightarrow> max 0 (lightness0 - step)
                                   | _ \<Rightarrow> lightness0);
                      hue = hueSlider st
                  in Some (updateColor True True True
                             (st\<lparr>currentColor :=
                                   hslToRgb (of_int hue) (of_int saturation) (of_int lightness)\<rparr>))
              | _ \<Rightarrow> None))"

text \<open>
  \<open>handleHueChange\<close>: the user has moved the slider to \<open>v\<close>. Saturation and lightness
  are read as in \<open>handleFieldKeydown\<close>, with the same result \<open>None\<close> for a \<open>NaN\<close>.
\<close>

definition handleHueChange :: "int \<Rightarrow> picker \<Rightarrow> picker option" where
  "handleHueChange v st =
     (case hslInputs st of
        (_, Some saturation, Some lightness) \<Rightarrow>
          Some (updateColor True True True
                  (st\<lparr>hueSlider := v,
                      currentColor := hslToRgb (of_int v) (of_int saturation) (of_int lightness)\<rparr>))
      | _ \<Rightarrow> None)"

definition handleAlphaChange :: "real \<Rightarrow> picker \<Rightarrow> picker" where
  "handleAlphaChange v st = updateColor True True True (st\<lparr>currentAlpha := v\<rparr>)"

definition handleHexChange :: "string \<Rightarrow> picker \<Rightarrow> picker" where
  "handleHexChange text st =
     (let st1 = st\<lparr>hexInput := text\<rparr>
      in case hexToRgb text of
           Some c \<Rightarrow> updateColor False True True (st1\<lparr>currentColor := c\<rparr>)
         | None \<Rightarrow> st1)"

text \<open>\<open>handleRgbChange\<close> and \<open>handleHslChange\<close>: each field is \<open>parseInt(_) || 0\<close>.\<close>

definition handleRgbChange :: "int option \<Rightarrow> int option \<Rightarrow> int option \<Rightarrow> picker \<Rightarrow> picker" where
  "handleRgbChange pr pg pb st =
     updateColor True False True
       (st\<lparr>rgbInputs := (pr, pg, pb),
           currentColor := \<lparr>rgb_r = or_zero pr, rgb_g = or_zero pg, rgb_b = or_zero pb\<rparr>\<rparr>)"

definition handleHslChange :: "int option \<Rightarrow> int option \<Rightarrow> int option \<Rightarrow> picker \<Rightarrow> picker" where
  "handleHslChange ph ps pl st =
     updateColor True True False
       (st\<lparr>hslInputs := (ph, ps, pl),
           currentColor := hslToRgb (of_int (or_zero ph)) (of_int (or_zero ps))
                             (of_int (or_zero pl))\<rparr>)"

text \<open>
  The click handlers of a harmony swatch and of a colour of a saved palette have the
  same body: \<open>hexToRgb\<close> of the element's \<open>data-color\<close>.
\<close>

definition swatchClick :: "string \<Rightarrow> picker \<Rightarrow> picker" where
  "swatchClick hexv st =
     (case hexToRgb hexv of
        Some c \<Rightarrow> updateColor True True True (st\<lparr>currentColor := c\<rparr>)
      | None \<Rightarrow> st)"

text \<open>
  \<open>handleEyeDropper\<close>: \<open>None\<close> when the browser has no eye dropper or the promise is
  rejected (abort or failure).
\<close>

definition handleEyeDropper :: "string option \<Rightarrow> picker \<Rightarrow> picker" where
  "handleEyeDropper result st =
     (case result of
        None \<Rightarrow> st
      | Some sRGBHex \<Rightarrow>
          (case hexToRgb sRGBHex of
             Some c \<Rightarrow> updateColor True True True (st\<lparr>currentColor := c\<rparr>)
           | None \<Rightarrow> st))"

text \<open>
  \<open>loadPalette\<close>: \<open>this.savedPalettes.find\<close> throws when the property holds the
  element, before anything is assigned.
\<close>

definition loadPalette :: "string \<Rightarrow> picker \<Rightarrow> picker" where
  "loadPalette ident st =
     (case savedPalettes st of
        ContainerElement \<Rightarrow> st
      | PaletteArray palettes \<Rightarrow>
          (case find (\<lambda>p. pal_id p = Some ident) palettes of
             None \<Rightarrow> st
           | Some p \<Rightarrow>
               (case pal_colors p of
                  [] \<Rightarrow> st
                | c0 # _ \<Rightarrow>
                    (case hexToRgb c0 of
                       Some c \<Rightarrow> updateColor True True True (st\<lparr>currentColor := c\<rparr>)
                     | None \<Rightarrow> st))))"

text \<open>
  \<open>handleImportPalette\<close>: the file's text either fails \<open>JSON.parse\<close>, parses to
  something that is not an array, or parses to an array. For an array the handler
  assigns \<open>[...this.savedPalettes, ...imported]\<close> and calls \<open>savePalettes\<close>, all inside
  \<open>try\<close>: when the property holds the element the spread throws, \<open>catch\<close> shows
  the toast for an unparsable file, and nothing has been assigned or stored.
\<close>

datatype 'p import_file = Unparsable | NotArray | Array "'p list"

definition handleImportPalette :: "palette import_file \<Rightarrow> picker \<Rightarrow> picker" where
  "handleImportPalette file st =
     (case file of
        Array imported \<Rightarrow>
          (case savedPalettes st of
             ContainerElement \<Rightarrow> st
           | PaletteArray palettes \<Rightarrow>
               st\<lparr>savedPalettes := PaletteArray (palettes @ imported),
                  storedPalettes := palettes @ imported\<rparr>)
      | _ \<Rightarrow> st)"

subsection \<open>Events\<close>

text \<open>
  The listeners of \<open>setupEventListeners\<close> and of the two render methods that assign
  \<open>currentColor\<close> or \<open>currentAlpha\<close>, and the import. Saving and deleting a palette
  assign neither of the two, and on the element that \<open>savedPalettes\<close> holds they throw
  (at \<open>push\<close> and at \<open>findIndex\<close>) before they change anything.
\<close>

datatype event =
    FieldDown real real real real
  | FieldMove real real real real
  | FieldUp
  | FieldKey key bool
  | HueChange int
  | AlphaChange real
  | HexChange string
  | RgbChange "int option" "int option" "int option"
  | HslChange "int option" "int option" "int option"
  | SwatchClick string
  | LoadPalette string
  | EyeDropper "string option"
  | ImportPalette "palette import_file"

fun dispatch :: "event \<Rightarrow> picker \<Rightarrow> picker option" where
  "dispatch (FieldDown px py w h) st = Some (startFieldDrag px py w h st)"
| "dispatch (FieldMove px py w h) st = Some (handleFieldDrag px py w h st)"
| "dispatch FieldUp st = Some (stopFieldDrag st)"
| "dispatch (FieldKey k shiftKey) st = handleFieldKeydown k shiftKey st"
| "dispatch (HueChange v) st = handleHueChange v st"
| "dispatch (AlphaChange v) st = Some (handleAlphaChange v st)"
| "dispatch (HexChange text) st = Some (handleHexChange text st)"
| "dispatch (RgbChange pr pg pb) st = Some (handleRgbChange pr pg pb st)"
| "dispatch (HslChange ph ps pl) st = Some (handleHslChange ph ps pl st)"
| "dispatch (SwatchClick hexv) st = Some (swatchClick hexv st)"
| "dispatch (LoadPalette ident) st = Some (loadPalette ident st)"
| "dispatch (EyeDropper result) st = Some (handleEyeDropper result st)"
| "dispatch (ImportPalette file) st = Some (handleImportPalette file st)"

text \<open>
  An event is nominal when the numbers it carries lie in the range of their control:
  a field rectangle of positive size, a hue in 0..360, an alpha in 0..1, RGB fields
  that hold integers in 0..255, HSL fields that hold a hue in 0..360 (or nothing) and
  a saturation and lightness in 0..100. Texts and hex strings are unrestricted.
\<close>

definition in_range :: "int \<Rightarrow> int \<Rightarrow> int option \<Rightarrow> bool" where
  "in_range lo hi v = (case v of None \<Rightarrow> False | Some n \<Rightarrow> lo \<le> n \<and> n \<le> hi)"

fun nominal :: "event \<Rightarrow> bool" where
  "nominal (FieldDown px py w h) = (0 < w \<and> 0 < h)"
| "nominal (FieldMove px py w h) = (0 < w \<and> 0 < h)"
| "nominal (HueChange v) = (0 \<le> v \<and> v \<le> 360)"
| "nominal (AlphaChange v) = (0 \<le> v \<and> v \<le> 1)"
| "nominal (RgbChange pr pg pb) = (in_range 0 255 pr \<and> in_range 0 255 pg \<and> in_range 0 255 pb)"
| "nominal (HslChange ph ps pl) =
     ((ph = None \<or> in_range 0 360 ph) \<and> in_range 0 100 ps \<and> in_range 0 100 pl)"
| "nominal _ = True"

definition rgb_ok :: "rgb \<Rightarrow> bool" where
  "rgb_ok c = (0 \<le> rgb_r c \<and> rgb_r c \<le> 255 \<and> 0 \<le> rgb_g c \<and> rgb_g c \<le> 255
               \<and> 0 \<le> rgb_b c \<and> rgb_b c \<le> 255)"

text \<open>The invariant of the claim: channels in 0..255 and alpha in 0..1.\<close>

definition color_inv :: "picker \<Rightarrow> bool" where
  "color_inv st = (rgb_ok (currentColor st) \<and> 0 \<le> currentAlpha st \<and> currentAlpha st \<le> 1)"

text \<open>
  What the handlers need of the controls they read back: the slider holds a hue in
  0..360 and the saturation and lightness fields hold numbers in 0..100.
\<close>

definition controls_inv :: "picker \<Rightarrow> bool" where
  "controls_inv st =
     (0 \<le> hueSlider st \<and> hueSlider st \<le> 360
      \<and> in_range 0 100 (fst (snd (hslInputs st)))
      \<and> in_range 0 100 (snd (snd (hslInputs st))))"

text \<open>The states reached from the constructor by events, and by nominal events.\<close>

inductive reachable :: "picker \<Rightarrow> bool" where
  reach_init: "reachable (constructor stored)"
| reach_step: "reachable st \<Longrightarrow> dispatch e st = Some st' \<Longrightarrow> reachable st'"

inductive reachable_nominal :: "picker \<Rightarrow> bool" where
  nominal_init: "reachable_nominal (constructor stored)"
| nominal_step: "reachable_nominal st \<Longrightarrow> nominal e \<Longrightarrow> dispatch e st = Some st' \<Longrightarrow>
     reachable_nominal st'"

section \<open>The second implementation (part_000)\<close>

text \<open>
  This class keeps hue, saturation, lightness and alpha as its state and derives RGB.
  The pointer handlers take the offset of the pointer in the control and the control's
  width and height, which are positive.
  Its own \<open>hslToRgb\<close>, \<open>rgbToHsl\<close> and \<open>hexToRgb\<close> have the bodies of the \<open>ColorUtils\<close>
  functions and return the channels as an array; the functions above model them too.
  Its palettes carry a name, colours and a timestamp, and no identifier.
  Its constructor too assigns the stored array to \<open>savedPalettes\<close> and then, in
  \<open>initializeElements\<close>, the element; its \<open>renderSavedPalettes\<close> throws at \<open>forEach\<close>
  after \<open>updateAll()\<close> has run.
\<close>

record hsla =
  hsla_h :: real
  hsla_s :: real
  hsla_l :: real
  hsla_a :: real

record alt_palette =
  ap_name :: string
  ap_colors :: "(real \<times> real \<times> real) list"
  ap_timestamp :: int

record alt_picker =
  alt_currentColor :: hsla
  alt_isDragging :: bool
  alt_savedPalettes :: "alt_palette palettes"
  alt_storedPalettes :: "alt_palette list"

definition alt_constructor :: "alt_palette list \<Rightarrow> alt_picker" where
  "alt_constructor stored =
     \<lparr>alt_currentColor = \<lparr>hsla_h = 0, hsla_s = 70, hsla_l = 40, hsla_a = 1\<rparr>,
      alt_isDragging = False, alt_savedPalettes = ContainerElement,
      alt_storedPalettes = stored\<rparr>"

definition alt_updateColorFromArea :: "real \<Rightarrow> real \<Rightarrow> real \<Rightarrow> real \<Rightarrow> alt_picker \<Rightarrow> alt_picker" where
  "alt_updateColorFromArea px py width height st =
     (let x = max 0 (min 1 (px / width));
          y = max 0 (min 1 (py / height))
      in st\<lparr>alt_currentColor := (alt_currentColor st)\<lparr>hsla_s := x * 100, hsla_l := (1 - y) * 100\<rparr>\<rparr>)"

definition alt_updateHueFromSlider :: "real \<Rightarrow> real \<Rightarrow> alt_picker \<Rightarrow> alt_picker" where
  "alt_updateHueFromSlider px width st =
     (let x = max 0 (min 1 (px / width))
      in st\<lparr>alt_currentColor := (alt_currentColor st)\<lparr>hsla_h := x * 360\<rparr>\<rparr>)"

definition alt_updateOpacityFromSlider :: "real \<Rightarrow> real \<Rightarrow> alt_picker \<Rightarrow> alt_picker" where
  "alt_updateOpacityFromSlider px width st =
     (let x = max 0 (min 1 (px / width))
      in st\<lparr>alt_currentColor := (alt_currentColor st)\<lparr>hsla_a := x\<rparr>\<rparr>)"

definition alt_set_hsl :: "hsl \<Rightarrow> alt_picker \<Rightarrow> alt_picker" where
  "alt_set_hsl c st =
     st\<lparr>alt_currentColor := (alt_currentColor st)
          \<lparr>hsla_h := of_int (hsl_h c), hsla_s := of_int (hsl_s c), hsla_l := of_int (hsl_l c)\<rparr>\<rparr>"

definition alt_handleHexInput :: "string \<Rightarrow> alt_picker \<Rightarrow> alt_picker" where
  "alt_handleHexInput text st =
     (case hexToRgb text of
        Some c \<Rightarrow> alt_set_hsl (rgbToHsl (of_int (rgb_r c)) (of_int (rgb_g c)) (of_int (rgb_b c))) st
      | None \<Rightarrow> st)"

text \<open>
  \<open>handleRgbInput\<close>: \<open>values\<close> are the \<open>parseInt\<close> results of the comma-separated
  parts of the field's text.
\<close>

definition alt_handleRgbInput :: "int option list \<Rightarrow> alt_picker \<Rightarrow> alt_picker" where
  "alt_handleRgbInput values st =
     (if length values = 3 \<and> list_all (in_range 0 255) values
      then alt_set_hsl (rgbToHsl (of_int (the (values ! 0))) (of_int (the (values ! 1)))
                          (of_int (the (values ! 2)))) st
      else st)"

text \<open>\<open>handleHslInput\<close>: \<open>values\<close> are the \<open>parseFloat\<close> results of the parts.\<close>

definition alt_handleHslInput :: "real option list \<Rightarrow> alt_picker \<Rightarrow> alt_picker" where
  "alt_handleHslInput values st =
     (if length values = 3 \<and> list_all (\<lambda>v. v \<noteq> None) values
      then st\<lparr>alt_currentColor := (alt_currentColor st)
                \<lparr>hsla_h := the (values ! 0), hsla_s := the (values ! 1),
                 hsla_l := the (values ! 2)\<rparr>\<rparr>
      else st)"

text \<open>The RGB triple that \<open>updateDisplays\<close> and \<open>updateContrastTests\<close> derive.\<close>

definition alt_rgb :: "alt_picker \<Rightarrow> rgb" where
  "alt_rgb st =
     hslToRgb (hsla_h (alt_currentColor st)) (hsla_s (alt_currentColor st))
       (hsla_l (alt_currentColor st))"

definition alt_generateColorHarmony :: "string \<Rightarrow> alt_picker \<Rightarrow> (real \<times> real \<times> real) list" where
  "alt_generateColorHarmony type st =
     (let baseHue = hsla_h (alt_currentColor st);
          baseSat = hsla_s (alt_currentColor st);
          baseLum = hsla_l (alt_currentColor st)
      in if type = ''complementary'' then
           [(baseHue, baseSat, baseLum),
            (js_fmod (baseHue + 180) 360, baseSat, baseLum)]
         else if type = ''analogous'' then
           [(js_fmod (baseHue - 30 + 360) 360, baseSat, baseLum),
            (baseHue, baseSat, baseLum),
            (js_fmod (baseHue + 30) 360, baseSat, baseLum)]
         else if type = ''triadic'' then
           [(baseHue, baseSat, baseLum),
            (js_fmod (baseHue + 120) 360, baseSat, baseLum),
            (js_fmod (baseHue + 240) 360, baseSat, baseLum)]
         else if type = ''tetradic'' then
           [(baseHue, baseSat, baseLum),
            (js_fmod (baseHue + 90) 360, baseSat, baseLum),
            (js_fmod (baseHue + 180) 360, baseSat, baseLum),
            (js_fmod (baseHue + 270) 360, baseSat, baseLum)]
         else [])"


section \<open>Notions of the specification\<close>

text \<open>The round trip of the specification: \<open>rgbToHsl\<close>, then \<open>hslToRgb\<close> on its result.\<close>

definition rgb_via_hsl :: "int \<Rightarrow> int \<Rightarrow> int \<Rightarrow> rgb" where
  "rgb_via_hsl r g b =
     (let c = rgbToHsl (of_int r) (of_int g) (of_int b)
      in hslToRgb (of_int (hsl_h c)) (of_int (hsl_s c)) (of_int (hsl_l c)))"

text \<open>The hue taken modulo 360, with a non-negative result.\<close>

definition hue_mod360 :: "real \<Rightarrow> real" where
  "hue_mod360 h = h - 360 * of_int \<lfloor>h / 360\<rfloor>"

text \<open>The fixed offsets of each harmony kind, in the order of the members.\<close>

definition harmony_offsets :: "string \<Rightarrow> int list" where
  "harmony_offsets type =
     (if type = ''complementary'' then [0, 180]
      else if type = ''analogous'' then [- 30, - 15, 0, 15, 30]
      else if type = ''triadic'' then [0, 120, 240]
      else if type = ''tetradic'' then [0, 90, 180, 270]
      else [])"

definition alt_harmony_offsets :: "string \<Rightarrow> real list" where
  "alt_harmony_offsets type =
     (if type = ''complementary'' then [0, 180]
      else if type = ''analogous'' then [- 30, 0, 30]
      else if type = ''triadic'' then [0, 120, 240]
      else if type = ''tetradic'' then [0, 90, 180, 270]
      else [])"

text \<open>
  The invariant that nominal events maintain: the claim's ranges together with what the
  handlers need of the controls.
\<close>

definition session_inv :: "picker \<Rightarrow> bool" where
  "session_inv st = (color_inv st \<and> controls_inv st)"

text \<open>
  A consistent view: hex, rgb and hsl denote the session's current colour, and both
  contrast figures are those of that colour.
\<close>

definition view_consistent :: "picker \<Rightarrow> bool" where
  "view_consistent st =
     (let v = view st
      in view_rgb v = currentColor st
       \<and> hexToRgb (view_hex v) = Some (view_rgb v)
       \<and> view_hsl v = rgbToHsl (of_int (rgb_r (view_rgb v))) (of_int (rgb_g (view_rgb v)))
                         (of_int (rgb_b (view_rgb v)))
       \<and> contrastWhite v = (contrastRatio (view_rgb v) white,
                             updateWcagBadge (contrastRatio (view_rgb v) white))
       \<and> contrastBlack v = (contrastRatio (view_rgb v) black,
                             updateWcagBadge (contrastRatio (view_rgb v) black)))"




section \<open>Verification\<close>

subsection \<open>Hex round trip\<close>

lemma hex_digit_val_all:
  "list_all (\<lambda>k. hex_digit_val (hex_digits ! k) = Some k)
     [0, 1, 2, 3, 4, 5, 6, 7, 8, 9, 10, 11, 12, 13, 14, 15]"
  unfolding list.pred_inject
  by (simp add: hex_digits_def hex_digit_val_def hex_table_def)

lemma upt_16: "[0..<16] = [0, 1, 2, 3, 4, 5, 6, 7, 8, 9, 10, 11, 12, 13, 14, 15::nat]"
  by (simp add: upt_rec)

lemma hex_digit_val_digit: "k < 16 \<Longrightarrow> hex_digit_val (hex_digits ! k) = Some k"
proof -
  assume "k < 16"
  then have "k \<in> set [0..<16]" by simp
  then show ?thesis
    using hex_digit_val_all unfolding upt_16 list_all_iff by blast
qed

lemma parse_hex_pair_digits:
  "x < 16 \<Longrightarrow> y < 16 \<Longrightarrow>
   parse_hex_pair (hex_digits ! x) (hex_digits ! y) = Some (int (16 * x + y))"
  by (simp add: parse_hex_pair_def hex_digit_val_digit)

lemma toString16_byte:
  "n < 256 \<Longrightarrow>
   toString16 n = (if n < 16 then [hex_digits ! n]
                   else [hex_digits ! (n div 16), hex_digits ! (n mod 16)])"
proof -
  assume n: "n < 256"
  show ?thesis
  proof (cases "n < 16")
    case True
    then show ?thesis by (simp add: toString16.simps)
  next
    case False
    with n have "n div 16 < 16" by simp
    then have "toString16 (n div 16) = [hex_digits ! (n div 16)]"
      by (simp add: toString16.simps)
    with False show ?thesis
      by (simp add: toString16.simps [of n])
  qed
qed

lemma Math_round_of_int: "Math_round (of_int n) = n"
  by (simp add: Math_round_def)

lemma toHex_byte:
  assumes "0 \<le> n" "n \<le> 255"
  shows "toHex (of_int n) = [hex_digits ! (nat n div 16), hex_digits ! (nat n mod 16)]"
proof -
  have clamp: "max 0 (min 255 (of_int n :: real)) = of_int n"
    using assms by simp
  have lt: "nat n < 256" using assms by simp
  have z: "hex_digits ! 0 = CHR ''0''" by (simp add: hex_digits_def)
  show ?thesis
    unfolding toHex_def clamp Math_round_of_int Let_def toString16_byte [OF lt]
    using z by simp
qed

lemma hex_round_trip:
  assumes "0 \<le> r" "r \<le> 255" "0 \<le> g" "g \<le> 255" "0 \<le> b" "b \<le> 255"
  shows "hexToRgb (rgbToHex (of_int r) (of_int g) (of_int b))
           = Some \<lparr>rgb_r = r, rgb_g = g, rgb_b = b\<rparr>"
proof -
  have pair: "parse_hex_pair (hex_digits ! (nat n div 16)) (hex_digits ! (nat n mod 16)) = Some n"
    if "0 \<le> n" "n \<le> 255" for n :: int
  proof -
    have "nat n div 16 < 16" using that by simp
    moreover have "nat n mod 16 < 16" by simp
    ultimately have "parse_hex_pair (hex_digits ! (nat n div 16)) (hex_digits ! (nat n mod 16))
        = Some (int (16 * (nat n div 16) + nat n mod 16))"
      by (rule parse_hex_pair_digits)
    also have "int (16 * (nat n div 16) + nat n mod 16) = n"
      using that by simp
    finally show ?thesis .
  qed
  show ?thesis
    by (simp add: rgbToHex_def hexToRgb_def strip_hash_def toHex_byte assms pair)
qed

text \<open>
  Claim C9. For integers \<open>r\<close>, \<open>g\<close>, \<open>b\<close> in 0..255, \<open>hexToRgb\<close> applied to
  \<open>rgbToHex(r, g, b)\<close> succeeds and returns exactly \<open>(r, g, b)\<close>.
\<close>

theorem hexToRgb_rgbToHex:
  assumes "0 \<le> r" "r \<le> 255" "0 \<le> g" "g \<le> 255" "0 \<le> b" "b \<le> 255"
  shows "hexToRgb (rgbToHex (of_int r) (of_int g) (of_int b))
           = Some \<lparr>rgb_r = r, rgb_g = g, rgb_b = b\<rparr>"
  using assms by (rule hex_round_trip)

theorem hexToRgb_rgbToHex_witness:
  "hexToRgb (rgbToHex 79 70 229) = Some \<lparr>rgb_r = 79, rgb_g = 70, rgb_b = 229\<rparr>"
  using hexToRgb_rgbToHex [of 79 70 229] by simp

subsection \<open>Rounding and ranges\<close>

lemma Math_round_upper: "of_int (Math_round x) \<le> x + 1 / 2"
  unfolding Math_round_def by (rule of_int_floor_le)

lemma Math_round_lower: "x - 1 / 2 < of_int (Math_round x)"
  unfolding Math_round_def by linarith

lemma Math_round_0 : "Math_round 0 = 0"
  by (simp add: Math_round_def)

lemma Math_round_bounds:
  assumes "of_int lo \<le> x" "x \<le> of_int hi"
  shows "lo \<le> Math_round x \<and> Math_round x \<le> hi"
proof -
  have "of_int lo - 1 / 2 < (of_int (Math_round x) :: real)"
    using Math_round_lower [of x] assms by linarith
  then have "(of_int lo :: real) < of_int (Math_round x) + 1" by linarith
  then have "lo < Math_round x + 1" by linarith
  moreover have "(of_int (Math_round x) :: real) < of_int hi + 1"
    using Math_round_upper [of x] assms by linarith
  then have "Math_round x < hi + 1" by linarith
  ultimately show ?thesis by linarith
qed

lemma rgbToHsl_gray:
  "rgbToHsl (of_int v) (of_int v) (of_int v)
     = \<lparr>hsl_h = 0, hsl_s = 0, hsl_l = Math_round (of_int v / 255 * 100)\<rparr>"
  by (simp add: rgbToHsl_def Let_def Math_round_0)

lemma hslToRgb_gray:
  "hslToRgb h 0 l = \<lparr>rgb_r = Math_round (l / 100 * 255), rgb_g = Math_round (l / 100 * 255),
                     rgb_b = Math_round (l / 100 * 255)\<rparr>"
  by (simp add: hslToRgb_def hslToRgb_raw_def Let_def)

lemma gray_channel:
  fixes v :: int
  defines "L \<equiv> Math_round (of_int v / 255 * 100)"
  shows "\<bar>Math_round (of_int L / 100 * 255) - v\<bar> \<le> 1"
proof -
  let ?R = "Math_round (of_int L / 100 * 255)"
  have l1: "of_int v / 255 * 100 - 1 / 2 < (of_int L :: real)"
    unfolding L_def by (rule Math_round_lower)
  have l2: "(of_int L :: real) \<le> of_int v / 255 * 100 + 1 / 2"
    unfolding L_def by (rule Math_round_upper)
  have r1: "of_int L / 100 * 255 - 1 / 2 < (of_int ?R :: real)"
    by (rule Math_round_lower)
  have r2: "(of_int ?R :: real) \<le> of_int L / 100 * 255 + 1 / 2"
    by (rule Math_round_upper)
  have "(of_int ?R :: real) < of_int v + 2" using l2 r2 by (simp add: field_simps)
  then have a: "?R < v + 2" by linarith
  have "(of_int v :: real) - 2 < of_int ?R" using l1 r1 by (simp add: field_simps)
  then have b: "v - 2 < ?R" by linarith
  from a b show ?thesis by linarith
qed

lemma rgb_via_hsl_gray:
  "rgb_via_hsl v v v =
     \<lparr>rgb_r = Math_round (of_int (Math_round (of_int v / 255 * 100)) / 100 * 255),
      rgb_g = Math_round (of_int (Math_round (of_int v / 255 * 100)) / 100 * 255),
      rgb_b = Math_round (of_int (Math_round (of_int v / 255 * 100)) / 100 * 255)\<rparr>"
  unfolding rgb_via_hsl_def Let_def rgbToHsl_gray
  by (simp add: hslToRgb_gray)

lemma roundtrip_2_0_0: "rgb_via_hsl 2 0 0 = \<lparr>rgb_r = 0, rgb_g = 0, rgb_b = 0\<rparr>"
  by (simp add: rgb_via_hsl_def rgbToHsl_def hslToRgb_def hslToRgb_raw_def hue2rgb_def
      Math_round_def Let_def)

lemma scale_unit:
  fixes d u :: real
  assumes "0 \<le> d" "0 \<le> u" "u \<le> 1"
  shows "0 \<le> d * u" "d * u \<le> d"
  using assms by (simp_all add: mult_left_le)

lemma hue2rgb_between:
  assumes pq: "p \<le> q" and t: "- 1 \<le> t" "t \<le> 2"
  shows "p \<le> hue2rgb p q t \<and> hue2rgb p q t \<le> q"
proof -
  define t1 where "t1 = (if t < 0 then t + 1 else t)"
  define t2 where "t2 = (if t1 > 1 then t1 - 1 else t1)"
  have t2: "0 \<le> t2" "t2 \<le> 1" using t by (auto simp: t1_def t2_def)
  have d: "0 \<le> q - p" using pq by simp
  have eq: "hue2rgb p q t =
      (if t2 < 1 / 6 then p + (q - p) * 6 * t2
       else if t2 < 1 / 2 then q
       else if t2 < 2 / 3 then p + (q - p) * (2 / 3 - t2) * 6
       else p)"
    by (simp only: hue2rgb_def Let_def t1_def t2_def)
  have assoc: "(q - p) * 6 * t2 = (q - p) * (6 * t2)"
    "(q - p) * (2 / 3 - t2) * 6 = (q - p) * ((2 / 3 - t2) * 6)"
    by simp_all
  show ?thesis
  proof (cases "t2 < 1 / 6")
    case True
    then have u: "0 \<le> 6 * t2" "6 * t2 \<le> 1" using t2 by simp_all
    show ?thesis using scale_unit [OF d u] True by (simp only: eq assoc if_True) simp
  next
    case a: False
    show ?thesis
    proof (cases "t2 < 1 / 2")
      case True
      then show ?thesis using a pq by (simp add: eq)
    next
      case b: False
      show ?thesis
      proof (cases "t2 < 2 / 3")
        case True
        then have u: "0 \<le> (2 / 3 - t2) * 6" "(2 / 3 - t2) * 6 \<le> 1" using b by simp_all
        show ?thesis using scale_unit [OF d u] True a b by (simp only: eq assoc if_True if_False) simp
      next
        case False
        then show ?thesis using a b pq by (simp add: eq)
      qed
    qed
  qed
qed

lemma pq_range:
  fixes s l :: real
  assumes "0 \<le> s" "s \<le> 1" "0 \<le> l" "l \<le> 1"
  defines "q \<equiv> (if l < 1 / 2 then l * (1 + s) else l + s - l * s)"
  shows "0 \<le> 2 * l - q" "2 * l - q \<le> q" "q \<le> 1"
proof -
  have ls: "0 \<le> l * s" "l * s \<le> l" using scale_unit [of l s] assms by simp_all
  have ms: "0 \<le> (1 - l) * s" "(1 - l) * s \<le> 1 - l" using scale_unit [of "1 - l" s] assms by simp_all
  show "0 \<le> 2 * l - q" using ls ms by (simp add: q_def algebra_simps)
  show "2 * l - q \<le> q" using ls ms by (simp add: q_def algebra_simps)
  show "q \<le> 1" using ls ms by (auto simp: q_def algebra_simps)
qed

lemma hslToRgb_raw_unit:
  assumes h: "- 240 \<le> h" "h \<le> 600" and s: "0 \<le> s" "s \<le> 100" and l: "0 \<le> l" "l \<le> 100"
  shows "case hslToRgb_raw h s l of (r, g, b) \<Rightarrow>
           0 \<le> r \<and> r \<le> 1 \<and> 0 \<le> g \<and> g \<le> 1 \<and> 0 \<le> b \<and> b \<le> 1"
proof (cases "s = 0")
  case True
  then show ?thesis using l by (simp add: hslToRgb_raw_def Let_def)
next
  case False
  define q where "q = (if l / 100 < 1 / 2 then l / 100 * (1 + s / 100) else l / 100 + s / 100 - l / 100 * (s / 100))"
  define p where "p = 2 * (l / 100) - q"
  have pq: "0 \<le> p" "p \<le> q" "q \<le> 1"
    unfolding p_def q_def using pq_range [of "s / 100" "l / 100"] s l by simp_all
  have raw: "hslToRgb_raw h s l =
      (hue2rgb p q (h / 360 + 1 / 3), hue2rgb p q (h / 360), hue2rgb p q (h / 360 - 1 / 3))"
    using False by (simp add: hslToRgb_raw_def Let_def p_def q_def)
  have r: "p \<le> hue2rgb p q (h / 360 + 1 / 3) \<and> hue2rgb p q (h / 360 + 1 / 3) \<le> q"
    using h by (intro hue2rgb_between pq) simp_all
  have g: "p \<le> hue2rgb p q (h / 360) \<and> hue2rgb p q (h / 360) \<le> q"
    using h by (intro hue2rgb_between pq) simp_all
  have b: "p \<le> hue2rgb p q (h / 360 - 1 / 3) \<and> hue2rgb p q (h / 360 - 1 / 3) \<le> q"
    using h by (intro hue2rgb_between pq) simp_all
  show ?thesis unfolding raw using r g b pq by simp
qed

lemma Math_round_channel:
  assumes "0 \<le> x" "x \<le> 1"
  shows "0 \<le> Math_round (x * 255) \<and> Math_round (x * 255) \<le> 255"
  using Math_round_bounds [of 0 "x * 255" 255] assms by simp

lemma hslToRgb_ok:
  assumes "- 240 \<le> h" "h \<le> 600" "0 \<le> s" "s \<le> 100" "0 \<le> l" "l \<le> 100"
  shows "rgb_ok (hslToRgb h s l)"
proof -
  obtain r g b where raw: "hslToRgb_raw h s l = (r, g, b)"
    by (cases "hslToRgb_raw h s l") auto
  with hslToRgb_raw_unit [OF assms]
  have "0 \<le> r \<and> r \<le> 1 \<and> 0 \<le> g \<and> g \<le> 1 \<and> 0 \<le> b \<and> b \<le> 1" by simp
  then show ?thesis
    by (simp add: rgb_ok_def hslToRgb_def raw Math_round_channel)
qed

lemma ratio_bounds:
  fixes x d :: real
  assumes "0 < d" "- d \<le> x" "x \<le> d"
  shows "- 1 \<le> x / d" "x / d \<le> 1"
  using assms by (simp_all add: field_simps)

lemma ratio_sign:
  fixes x d :: real
  assumes "0 < d"
  shows "0 \<le> x \<Longrightarrow> 0 \<le> x / d" "x < 0 \<Longrightarrow> x / d < 0"
  using assms by (simp_all add: field_simps)

lemma Math_round_scaled:
  assumes "0 \<le> x" "x \<le> 1" "0 \<le> n"
  shows "0 \<le> Math_round (x * of_int n) \<and> Math_round (x * of_int n) \<le> n"
proof -
  have "0 \<le> x * of_int n" using assms by simp
  moreover have "x * of_int n \<le> of_int n"
    using assms by (simp add: mult_left_le_one_le)
  ultimately show ?thesis using Math_round_bounds [of 0 "x * of_int n" n] by simp
qed

lemma rgbToHsl_range:
  fixes r0 g0 b0 :: real
  assumes "0 \<le> r0" "r0 \<le> 255" "0 \<le> g0" "g0 \<le> 255" "0 \<le> b0" "b0 \<le> 255"
  shows "0 \<le> hsl_h (rgbToHsl r0 g0 b0) \<and> hsl_h (rgbToHsl r0 g0 b0) \<le> 360
       \<and> 0 \<le> hsl_s (rgbToHsl r0 g0 b0) \<and> hsl_s (rgbToHsl r0 g0 b0) \<le> 100
       \<and> 0 \<le> hsl_l (rgbToHsl r0 g0 b0) \<and> hsl_l (rgbToHsl r0 g0 b0) \<le> 100"
proof -
  define r where "r = r0 / 255"
  define g where "g = g0 / 255"
  define b where "b = b0 / 255"
  define mx where "mx = max (max r g) b"
  define mn where "mn = min (min r g) b"
  define l where "l = (mx + mn) / 2"
  have unit: "0 \<le> r" "r \<le> 1" "0 \<le> g" "g \<le> 1" "0 \<le> b" "b \<le> 1"
    using assms by (simp_all add: r_def g_def b_def)
  have mm: "0 \<le> mn" "mn \<le> mx" "mx \<le> 1"
    using unit by (auto simp: mx_def mn_def)
  have bnd: "mn \<le> r" "r \<le> mx" "mn \<le> g" "g \<le> mx" "mn \<le> b" "b \<le> mx"
    by (auto simp: mx_def mn_def)
  have l: "0 \<le> l" "l \<le> 1" using mm by (simp_all add: l_def)
  have L: "0 \<le> Math_round (l * 100) \<and> Math_round (l * 100) \<le> 100"
    using Math_round_scaled [OF l, of 100] by simp
  show ?thesis
  proof (cases "mx = mn")
    case True
    then have "rgbToHsl r0 g0 b0 = \<lparr>hsl_h = 0, hsl_s = 0, hsl_l = Math_round (l * 100)\<rparr>"
      by (simp add: rgbToHsl_def Let_def Math_round_0 r_def g_def b_def mx_def mn_def l_def)
    then show ?thesis using L by simp
  next
    case False
    define d where "d = mx - mn"
    define s where "s = (if l > 1 / 2 then d / (2 - mx - mn) else d / (mx + mn))"
    define h6 where "h6 = (if mx = r then (g - b) / d + (if g < b then 6 else 0)
                    else if mx = g then (b - r) / d + 2
                    else (r - g) / d + 4)"
    have d: "0 < d" using False mm by (simp add: d_def)
    have eq: "rgbToHsl r0 g0 b0 = \<lparr>hsl_h = Math_round (h6 / 6 * 360), hsl_s = Math_round (s * 100),
                hsl_l = Math_round (l * 100)\<rparr>"
      using False
      by (simp add: rgbToHsl_def Let_def r_def g_def b_def mx_def mn_def l_def d_def s_def h6_def)
    have s: "0 \<le> s" "s \<le> 1"
    proof -
      have pos1: "0 < 2 - mx - mn" using False mm by linarith
      have pos2: "0 < mx + mn" using False mm by linarith
      have "d \<le> 2 - mx - mn" using mm by (simp add: d_def)
      moreover have "d \<le> mx + mn" using mm by (simp add: d_def)
      ultimately show "0 \<le> s" "s \<le> 1"
        using d pos1 pos2 by (simp_all add: s_def)
    qed
    have h6: "0 \<le> h6" "h6 \<le> 6"
    proof -
      have gb: "- 1 \<le> (g - b) / d" "(g - b) / d \<le> 1"
        using ratio_bounds [OF d, of "g - b"] bnd by (simp_all add: d_def)
      have br: "- 1 \<le> (b - r) / d" "(b - r) / d \<le> 1"
        using ratio_bounds [OF d, of "b - r"] bnd by (simp_all add: d_def)
      have rg: "- 1 \<le> (r - g) / d" "(r - g) / d \<le> 1"
        using ratio_bounds [OF d, of "r - g"] bnd by (simp_all add: d_def)
      have sg: "\<not> g < b \<Longrightarrow> 0 \<le> (g - b) / d"
        using ratio_sign(1) [OF d, of "g - b"] by simp
      show "0 \<le> h6" using gb br rg sg by (auto simp: h6_def)
      show "h6 \<le> 6" using gb br rg ratio_sign(2) [OF d, of "g - b"] by (auto simp: h6_def)
    qed
    have H: "0 \<le> Math_round (h6 / 6 * 360) \<and> Math_round (h6 / 6 * 360) \<le> 360"
      using Math_round_scaled [of "h6 / 6" 360] h6 by simp
    have S: "0 \<le> Math_round (s * 100) \<and> Math_round (s * 100) \<le> 100"
      using Math_round_scaled [OF s, of 100] by simp
    show ?thesis unfolding eq using H S L by simp
  qed
qed

subsection \<open>Round trip through HSL\<close>

text \<open>
  \<open>hue2rgb\<close> is \<open>p + (q - p) * w\<close> for a weight \<open>w\<close> that depends on the hue alone, is
  piecewise linear with slope at most 6, and gives back the three channels from the
  exact hue. Rounding lightness and saturation to a hundredth and the hue to a degree
  moves a channel by at most \<open>1/48\<close> of its range.
\<close>

lemma hue2rgb_affine: "hue2rgb p q t = p + (q - p) * hue2rgb 0 1 t"
proof -
  define t1 where "t1 = (if t < 0 then t + 1 else t)"
  define t2 where "t2 = (if t1 > 1 then t1 - 1 else t1)"
  have a: "hue2rgb p q t =
      (if t2 < 1 / 6 then p + (q - p) * 6 * t2
       else if t2 < 1 / 2 then q
       else if t2 < 2 / 3 then p + (q - p) * (2 / 3 - t2) * 6
       else p)" for p q
    by (simp only: hue2rgb_def Let_def t1_def t2_def)
  show ?thesis
    unfolding a [of p q] a [of 0 1] by (simp add: field_simps)
qed

lemma weight_unit:
  assumes "- 1 \<le> t" "t \<le> 2"
  shows "0 \<le> hue2rgb 0 1 t" "hue2rgb 0 1 t \<le> 1"
  using hue2rgb_between [of 0 1 t] assms by simp_all

lemma abs6: "\<bar>6 * u - 6 * t\<bar> = 6 * \<bar>u - t\<bar>" "\<bar>t * 6 - u * 6\<bar> = 6 * \<bar>u - t\<bar>" for u t :: real
  by (simp_all add: abs_if)

lemma weight_lipschitz:
  assumes "- 1 \<le> t" "t \<le> 2" "- 1 \<le> u" "u \<le> 2"
  shows "\<bar>hue2rgb 0 1 u - hue2rgb 0 1 t\<bar> \<le> 6 * \<bar>u - t\<bar>"
  using assms by (auto simp: hue2rgb_def Let_def abs6)

lemma hue2rgb_same: "hue2rgb p p t = p"
  using hue2rgb_affine [of p p t] by simp

lemma hslToRgb_raw_form:
  fixes h s l :: real
  defines "m \<equiv> s / 100 * min (l / 100) (1 - l / 100)"
  shows "hslToRgb_raw h s l =
     (hue2rgb (l / 100 - m) (l / 100 + m) (h / 360 + 1 / 3),
      hue2rgb (l / 100 - m) (l / 100 + m) (h / 360),
      hue2rgb (l / 100 - m) (l / 100 + m) (h / 360 - 1 / 3))"
proof (cases "s = 0")
  case True
  then show ?thesis by (simp add: hslToRgb_raw_def m_def hue2rgb_same Let_def)
next
  case False
  have q: "(if l / 100 < 1 / 2 then l / 100 * (1 + s / 100)
            else l / 100 + s / 100 - l / 100 * (s / 100)) = l / 100 + m"
    by (simp add: m_def min_def algebra_simps)
  have p: "2 * (l / 100) - (l / 100 + m) = l / 100 - m" by simp
  show ?thesis
    using False unfolding hslToRgb_raw_def Let_def q p by simp
qed

lemma weight_red:
  fixes x :: real
  shows "0 \<le> x \<Longrightarrow> x \<le> 1 \<Longrightarrow> hue2rgb 0 1 (x / 6 + 1 / 3) = 1"
    and "1 \<le> x \<Longrightarrow> x \<le> 2 \<Longrightarrow> hue2rgb 0 1 (x / 6 + 1 / 3) = 2 - x"
    and "2 \<le> x \<Longrightarrow> x \<le> 4 \<Longrightarrow> hue2rgb 0 1 (x / 6 + 1 / 3) = 0"
    and "4 \<le> x \<Longrightarrow> x \<le> 5 \<Longrightarrow> hue2rgb 0 1 (x / 6 + 1 / 3) = x - 4"
    and "5 \<le> x \<Longrightarrow> x \<le> 6 \<Longrightarrow> hue2rgb 0 1 (x / 6 + 1 / 3) = 1"
  by (auto simp: hue2rgb_def Let_def field_simps)

lemma weight_green:
  fixes x :: real
  shows "0 \<le> x \<Longrightarrow> x \<le> 1 \<Longrightarrow> hue2rgb 0 1 (x / 6) = x"
    and "1 \<le> x \<Longrightarrow> x \<le> 3 \<Longrightarrow> hue2rgb 0 1 (x / 6) = 1"
    and "3 \<le> x \<Longrightarrow> x \<le> 4 \<Longrightarrow> hue2rgb 0 1 (x / 6) = 4 - x"
    and "4 \<le> x \<Longrightarrow> x \<le> 6 \<Longrightarrow> hue2rgb 0 1 (x / 6) = 0"
  by (auto simp: hue2rgb_def Let_def field_simps)

lemma weight_blue:
  fixes x :: real
  shows "0 \<le> x \<Longrightarrow> x \<le> 2 \<Longrightarrow> hue2rgb 0 1 (x / 6 - 1 / 3) = 0"
    and "2 \<le> x \<Longrightarrow> x \<le> 3 \<Longrightarrow> hue2rgb 0 1 (x / 6 - 1 / 3) = x - 2"
    and "3 \<le> x \<Longrightarrow> x \<le> 5 \<Longrightarrow> hue2rgb 0 1 (x / 6 - 1 / 3) = 1"
    and "5 \<le> x \<Longrightarrow> x \<le> 6 \<Longrightarrow> hue2rgb 0 1 (x / 6 - 1 / 3) = 6 - x"
  by (auto simp: hue2rgb_def Let_def field_simps)

lemma hue_exact:
  fixes r g b :: real
  defines "mx \<equiv> max (max r g) b"
  defines "mn \<equiv> min (min r g) b"
  defines "d \<equiv> mx - mn"
  defines "h6 \<equiv> (if mx = r then (g - b) / d + (if g < b then 6 else 0)
                    else if mx = g then (b - r) / d + 2
                    else (r - g) / d + 4)"
  assumes ne: "mx \<noteq> mn"
  shows "mn + d * hue2rgb 0 1 (h6 / 6 + 1 / 3) = r
       \<and> mn + d * hue2rgb 0 1 (h6 / 6) = g
       \<and> mn + d * hue2rgb 0 1 (h6 / 6 - 1 / 3) = b"
proof -
  have d: "0 < d" using ne by (auto simp: d_def mx_def mn_def)
  have cancel: "d * (x / d) = x" for x using d by simp
  consider (rg) "mx = r" "b \<le> g" | (rb) "mx = r" "g < b"
    | (gb) "mx \<noteq> r" "mx = g" "b \<le> r" | (gr) "mx \<noteq> r" "mx = g" "r < b"
    | (br) "mx \<noteq> r" "mx \<noteq> g" "r \<le> g" | (bg) "mx \<noteq> r" "mx \<noteq> g" "g < r"
    by linarith
  then show ?thesis
  proof cases
    case rg
    then have mn: "mn = b" and mxv: "mx = r" by (auto simp: mx_def mn_def)
    have md: "b + d = r" unfolding d_def mn mxv by simp
    have h: "h6 = (g - b) / d" using rg by (simp add: h6_def)
    have val: "d * h6 = g - b" using d unfolding h by (simp add: distrib_left)
    have lo: "0 \<le> h6" and hi: "h6 \<le> 1"
      using d rg md unfolding h by (auto simp: mx_def field_simps)
    have R: "hue2rgb 0 1 (h6 / 6 + 1 / 3) = 1" using lo hi by (intro weight_red(1)) simp_all
    have G: "hue2rgb 0 1 (h6 / 6) = h6" using lo hi by (intro weight_green(1)) simp_all
    have B: "hue2rgb 0 1 (h6 / 6 - 1 / 3) = 0" using lo hi by (intro weight_blue(1)) simp_all
    show ?thesis unfolding R G B mn using val md by (auto simp: algebra_simps)
  next
    case rb
    then have mn: "mn = g" and mxv: "mx = r" by (auto simp: mx_def mn_def)
    have md: "g + d = r" unfolding d_def mn mxv by simp
    have h: "h6 = (g - b) / d + 6" using rb by (simp add: h6_def)
    have val: "d * h6 = g - b + 6 * d" using d unfolding h by (simp add: distrib_left)
    have lo: "5 \<le> h6" and hi: "h6 \<le> 6"
      using d rb md unfolding h by (auto simp: mx_def field_simps)
    have R: "hue2rgb 0 1 (h6 / 6 + 1 / 3) = 1" using lo hi by (intro weight_red(5)) simp_all
    have G: "hue2rgb 0 1 (h6 / 6) = 0" using lo hi by (intro weight_green(4)) simp_all
    have B: "hue2rgb 0 1 (h6 / 6 - 1 / 3) = 6 - h6" using lo hi by (intro weight_blue(4)) simp_all
    show ?thesis unfolding R G B mn using val md by (auto simp: algebra_simps)
  next
    case gb
    then have mn: "mn = b" and mxv: "mx = g" by (auto simp: mx_def mn_def)
    have md: "b + d = g" unfolding d_def mn mxv by simp
    have h: "h6 = (b - r) / d + 2" using gb by (simp add: h6_def)
    have val: "d * h6 = b - r + 2 * d" using d unfolding h by (simp add: distrib_left)
    have lo: "1 \<le> h6" and hi: "h6 \<le> 2"
      using d gb md unfolding h by (auto simp: mx_def field_simps)
    have R: "hue2rgb 0 1 (h6 / 6 + 1 / 3) = 2 - h6" using lo hi by (intro weight_red(2)) simp_all
    have G: "hue2rgb 0 1 (h6 / 6) = 1" using lo hi by (intro weight_green(2)) simp_all
    have B: "hue2rgb 0 1 (h6 / 6 - 1 / 3) = 0" using lo hi by (intro weight_blue(1)) simp_all
    show ?thesis unfolding R G B mn using val md by (auto simp: algebra_simps)
  next
    case gr
    then have mn: "mn = r" and mxv: "mx = g" by (auto simp: mx_def mn_def)
    have md: "r + d = g" unfolding d_def mn mxv by simp
    have h: "h6 = (b - r) / d + 2" using gr by (simp add: h6_def)
    have val: "d * h6 = b - r + 2 * d" using d unfolding h by (simp add: distrib_left)
    have lo: "2 \<le> h6" and hi: "h6 \<le> 3"
      using d gr md unfolding h by (auto simp: mx_def field_simps)
    have R: "hue2rgb 0 1 (h6 / 6 + 1 / 3) = 0" using lo hi by (intro weight_red(3)) simp_all
    have G: "hue2rgb 0 1 (h6 / 6) = 1" using lo hi by (intro weight_green(2)) simp_all
    have B: "hue2rgb 0 1 (h6 / 6 - 1 / 3) = h6 - 2" using lo hi by (intro weight_blue(2)) simp_all
    show ?thesis unfolding R G B mn using val md by (auto simp: algebra_simps)
  next
    case br
    then have mn: "mn = r" and mxv: "mx = b" by (auto simp: mx_def mn_def)
    have md: "r + d = b" unfolding d_def mn mxv by simp
    have h: "h6 = (r - g) / d + 4" using br by (simp add: h6_def)
    have val: "d * h6 = r - g + 4 * d" using d unfolding h by (simp add: distrib_left)
    have lo: "3 \<le> h6" and hi: "h6 \<le> 4"
      using d br md unfolding h by (auto simp: mx_def field_simps)
    have R: "hue2rgb 0 1 (h6 / 6 + 1 / 3) = 0" using lo hi by (intro weight_red(3)) simp_all
    have G: "hue2rgb 0 1 (h6 / 6) = 4 - h6" using lo hi by (intro weight_green(3)) simp_all
    have B: "hue2rgb 0 1 (h6 / 6 - 1 / 3) = 1" using lo hi by (intro weight_blue(3)) simp_all
    show ?thesis unfolding R G B mn using val md by (auto simp: algebra_simps)
  next
    case bg
    then have mn: "mn = g" and mxv: "mx = b" by (auto simp: mx_def mn_def)
    have md: "g + d = b" unfolding d_def mn mxv by simp
    have h: "h6 = (r - g) / d + 4" using bg by (simp add: h6_def)
    have val: "d * h6 = r - g + 4 * d" using d unfolding h by (simp add: distrib_left)
    have lo: "4 \<le> h6" and hi: "h6 \<le> 5"
      using d bg md unfolding h by (auto simp: mx_def field_simps)
    have R: "hue2rgb 0 1 (h6 / 6 + 1 / 3) = h6 - 4" using lo hi by (intro weight_red(4)) simp_all
    have G: "hue2rgb 0 1 (h6 / 6) = 0" using lo hi by (intro weight_green(4)) simp_all
    have B: "hue2rgb 0 1 (h6 / 6 - 1 / 3) = 1" using lo hi by (intro weight_blue(3)) simp_all
    show ?thesis unfolding R G B mn using val md by (auto simp: algebra_simps)
  qed
qed

lemma abs_scaled:
  fixes a c :: real
  assumes "\<bar>a\<bar> \<le> A" "\<bar>c\<bar> \<le> 1"
  shows "\<bar>a * c\<bar> \<le> A"
proof -
  have "\<bar>a * c\<bar> = \<bar>a\<bar> * \<bar>c\<bar>" by (rule abs_mult)
  also have "\<dots> \<le> \<bar>a\<bar> * 1" using assms(2) by (intro mult_left_mono) simp_all
  finally show ?thesis using assms(1) by simp
qed

lemma half_chroma_bound:
  fixes s s' u u' :: real
  assumes "\<bar>s' - s\<bar> \<le> 1 / 200" "0 \<le> u'" "u' \<le> 1 / 2" "0 \<le> s" "s \<le> 1"
    and "\<bar>u' - u\<bar> \<le> 1 / 200"
  shows "\<bar>s' * u' - s * u\<bar> \<le> 3 / 400"
proof -
  have e: "s' * u' - s * u = u' * (s' - s) + (u' - u) * s" by (simp add: algebra_simps)
  have "\<bar>u' * (s' - s)\<bar> = \<bar>u'\<bar> * \<bar>s' - s\<bar>" by (rule abs_mult)
  also have "\<dots> \<le> (1 / 2) * (1 / 200)"
    using assms by (intro mult_mono) simp_all
  finally have a: "\<bar>u' * (s' - s)\<bar> \<le> 1 / 400" by simp
  have b: "\<bar>(u' - u) * s\<bar> \<le> 1 / 200"
    using assms by (intro abs_scaled) simp_all
  show ?thesis unfolding e using a b by linarith
qed

lemma channel_bound:
  fixes l l' m' d w w' :: real and c :: int
  assumes l: "\<bar>l' - l\<bar> \<le> 1 / 200" and m: "\<bar>m' - d / 2\<bar> \<le> 3 / 400"
    and d: "0 \<le> d" "d \<le> 1" and w': "0 \<le> w'" "w' \<le> 1"
    and w: "\<bar>w' - w\<bar> \<le> 1 / 120"
    and c: "of_int c = 255 * (l - d / 2 + d * w)"
  shows "\<bar>Math_round ((l' - m' + (l' + m' - (l' - m')) * w') * 255) - c\<bar> \<le> 5"
proof -
  define X' where "X' = l' - m' + (l' + m' - (l' - m')) * w'"
  define X where "X = l - d / 2 + d * w"
  have e: "X' - X = (l' - l) + (m' - d / 2) * (2 * w' - 1) + (w' - w) * d"
    by (simp add: X'_def X_def algebra_simps)
  have b1: "\<bar>(m' - d / 2) * (2 * w' - 1)\<bar> \<le> 3 / 400"
    using m w' by (intro abs_scaled) simp_all
  have b2: "\<bar>(w' - w) * d\<bar> \<le> 1 / 120"
    using w d by (intro abs_scaled) simp_all
  have "\<bar>X' - X\<bar> \<le> 1 / 48" unfolding e using l b1 b2 by linarith
  then have x: "\<bar>X' * 255 - of_int c\<bar> \<le> 255 / 48"
    unfolding c X_def [symmetric] by linarith
  have u: "of_int (Math_round (X' * 255)) \<le> X' * 255 + 1 / 2" by (rule Math_round_upper)
  have v: "X' * 255 - 1 / 2 < of_int (Math_round (X' * 255))" by (rule Math_round_lower)
  have "(of_int (Math_round (X' * 255)) :: real) < of_int c + 6" using x u by linarith
  then have a: "Math_round (X' * 255) < c + 6" by linarith
  have "(of_int c :: real) - 6 < of_int (Math_round (X' * 255))" using x v by linarith
  then have b: "c - 6 < Math_round (X' * 255)" by linarith
  from a b show ?thesis unfolding X'_def by linarith
qed

lemma hue6_range:
  fixes r g b :: real
  defines "mx \<equiv> max (max r g) b"
  defines "mn \<equiv> min (min r g) b"
  defines "d \<equiv> mx - mn"
  defines "h6 \<equiv> (if mx = r then (g - b) / d + (if g < b then 6 else 0)
                    else if mx = g then (b - r) / d + 2
                    else (r - g) / d + 4)"
  assumes ne: "mx \<noteq> mn"
  shows "0 \<le> h6 \<and> h6 \<le> 6"
proof -
  have d: "0 < d" using ne by (auto simp: d_def mx_def mn_def)
  have bnd: "mn \<le> r" "r \<le> mx" "mn \<le> g" "g \<le> mx" "mn \<le> b" "b \<le> mx"
    by (auto simp: mx_def mn_def)
  have gb: "- 1 \<le> (g - b) / d" "(g - b) / d \<le> 1"
    using ratio_bounds [OF d, of "g - b"] bnd by (simp_all add: d_def)
  have br: "- 1 \<le> (b - r) / d" "(b - r) / d \<le> 1"
    using ratio_bounds [OF d, of "b - r"] bnd by (simp_all add: d_def)
  have rg: "- 1 \<le> (r - g) / d" "(r - g) / d \<le> 1"
    using ratio_bounds [OF d, of "r - g"] bnd by (simp_all add: d_def)
  have sg: "\<not> g < b \<Longrightarrow> 0 \<le> (g - b) / d"
    using ratio_sign(1) [OF d, of "g - b"] by simp
  have "0 \<le> h6" using gb br rg sg by (auto simp: h6_def)
  moreover have "h6 \<le> 6" using gb br rg ratio_sign(2) [OF d, of "g - b"] by (auto simp: h6_def)
  ultimately show ?thesis ..
qed

lemma min_lipschitz:
  fixes l l' :: real
  shows "\<bar>min l' (1 - l') - min l (1 - l)\<bar> \<le> \<bar>l' - l\<bar>"
  by (auto simp: min_def abs_if)

lemma Math_round_near: "\<bar>of_int (Math_round x) - x\<bar> \<le> 1 / 2"
  using Math_round_upper [of x] Math_round_lower [of x] by linarith

lemma Math_round_scaled_near:
  fixes x n :: real
  assumes "0 < n"
  shows "\<bar>of_int (Math_round (x * n)) / n - x\<bar> \<le> 1 / (2 * n)"
proof -
  have "of_int (Math_round (x * n)) / n - x = (of_int (Math_round (x * n)) - x * n) / n"
    using assms by (simp add: field_simps)
  then have "\<bar>of_int (Math_round (x * n)) / n - x\<bar> = \<bar>of_int (Math_round (x * n)) - x * n\<bar> / n"
    using assms by simp
  also have "\<dots> \<le> (1 / 2) / n"
    using assms Math_round_near [of "x * n"] by (intro divide_right_mono) simp_all
  finally show ?thesis by simp
qed

lemma roundtrip_chromatic:
  fixes r g b :: int
  assumes range: "0 \<le> r" "r \<le> 255" "0 \<le> g" "g \<le> 255" "0 \<le> b" "b \<le> 255"
    and chromatic: "\<not> (r = g \<and> g = b)"
  shows "\<bar>rgb_r (rgb_via_hsl r g b) - r\<bar> \<le> 5
       \<and> \<bar>rgb_g (rgb_via_hsl r g b) - g\<bar> \<le> 5
       \<and> \<bar>rgb_b (rgb_via_hsl r g b) - b\<bar> \<le> 5"
proof -
  define R where "R = real_of_int r / 255"
  define G where "G = real_of_int g / 255"
  define B where "B = real_of_int b / 255"
  define mx where "mx = max (max R G) B"
  define mn where "mn = min (min R G) B"
  define l where "l = (mx + mn) / 2"
  define d where "d = mx - mn"
  define s where "s = (if l > 1 / 2 then d / (2 - mx - mn) else d / (mx + mn))"
  define h6 where "h6 = (if mx = R then (G - B) / d + (if G < B then 6 else 0)
                    else if mx = G then (B - R) / d + 2
                    else (R - G) / d + 4)"
  define u where "u = min l (1 - l)"
  have unit: "0 \<le> R" "R \<le> 1" "0 \<le> G" "G \<le> 1" "0 \<le> B" "B \<le> 1"
    using range by (simp_all add: R_def G_def B_def)
  have mm: "0 \<le> mn" "mn \<le> mx" "mx \<le> 1"
    using unit by (auto simp: mx_def mn_def)
  have ne: "mx \<noteq> mn"
  proof
    assume "mx = mn"
    then have "R = G \<and> G = B" by (auto simp: mx_def mn_def max_def min_def split: if_splits)
    then have "r = g \<and> g = b" by (simp add: R_def G_def B_def)
    with chromatic show False by simp
  qed
  have d: "0 < d" "d \<le> 1" using ne mm by (simp_all add: d_def)
  have lr: "0 \<le> l" "l \<le> 1" using mm by (simp_all add: l_def)
  have mnl: "mn = l - d / 2" by (simp add: l_def d_def field_simps)
  have s: "0 \<le> s" "s \<le> 1"
  proof -
    have pos1: "0 < 2 - mx - mn" using ne mm by linarith
    have pos2: "0 < mx + mn" using ne mm by linarith
    have "d \<le> 2 - mx - mn" using mm by (simp add: d_def)
    moreover have "d \<le> mx + mn" using mm by (simp add: d_def)
    ultimately show "0 \<le> s" "s \<le> 1"
      using d pos1 pos2 by (simp_all add: s_def)
  qed
  have gen: "d / k * (k / 2) = d / 2" if "k \<noteq> 0" for k :: real
    using that by simp
  have su: "s * u = d / 2"
  proof (cases "l > 1 / 2")
    case True
    have pos1: "2 - mx - mn \<noteq> 0" using ne mm by linarith
    have "u = 1 - l" using True by (simp add: u_def min_def)
    also have "\<dots> = (2 - mx - mn) / 2" by (simp add: l_def field_simps)
    finally have uv: "u = (2 - mx - mn) / 2" .
    have sv: "s = d / (2 - mx - mn)" using True by (simp add: s_def)
    show ?thesis unfolding sv uv using pos1 by (rule gen)
  next
    case False
    have pos2: "mx + mn \<noteq> 0" using ne mm by linarith
    have "u = l" using False by (simp add: u_def min_def)
    also have "\<dots> = (mx + mn) / 2" by (simp add: l_def)
    finally have uv: "u = (mx + mn) / 2" .
    have sv: "s = d / (mx + mn)" using False by (simp add: s_def)
    show ?thesis unfolding sv uv using pos2 by (rule gen)
  qed
  have h6: "0 \<le> h6" "h6 \<le> 6"
    using hue6_range [of R G B] ne unfolding h6_def d_def mx_def mn_def by simp_all
  have ex: "mn + d * hue2rgb 0 1 (h6 / 6 + 1 / 3) = R
       \<and> mn + d * hue2rgb 0 1 (h6 / 6) = G
       \<and> mn + d * hue2rgb 0 1 (h6 / 6 - 1 / 3) = B"
    unfolding h6_def d_def mx_def mn_def using ne [unfolded mx_def mn_def] by (rule hue_exact)
  define H where "H = Math_round (h6 / 6 * 360)"
  define S where "S = Math_round (s * 100)"
  define L where "L = Math_round (l * 100)"
  have eq: "rgbToHsl (of_int r) (of_int g) (of_int b) = \<lparr>hsl_h = H, hsl_s = S, hsl_l = L\<rparr>"
    using ne
    by (simp add: rgbToHsl_def Let_def R_def G_def B_def mx_def mn_def l_def d_def s_def h6_def
        H_def S_def L_def)
  define l' where "l' = real_of_int L / 100"
  define u' where "u' = min l' (1 - l')"
  define m' where "m' = real_of_int S / 100 * u'"
  have Lr: "0 \<le> L \<and> L \<le> 100"
    unfolding L_def using Math_round_scaled [OF lr, of 100] by simp
  have Hr: "0 \<le> H \<and> H \<le> 360"
    unfolding H_def using Math_round_scaled [of "h6 / 6" 360] h6 by simp
  have l': "0 \<le> l'" "l' \<le> 1" using Lr by (simp_all add: l'_def)
  have dl: "\<bar>l' - l\<bar> \<le> 1 / 200"
    using Math_round_scaled_near [of 100 l] by (simp add: l'_def L_def)
  have ds: "\<bar>real_of_int S / 100 - s\<bar> \<le> 1 / 200"
    using Math_round_scaled_near [of 100 s] by (simp add: S_def)
  have dh: "\<bar>real_of_int H / 360 - h6 / 6\<bar> \<le> 1 / 720"
    using Math_round_scaled_near [of 360 "h6 / 6"] by (simp add: H_def)
  have u': "0 \<le> u'" "u' \<le> 1 / 2" using l' by (auto simp: u'_def min_def)
  have du: "\<bar>u' - u\<bar> \<le> 1 / 200"
    using min_lipschitz [of l' l] dl by (simp add: u'_def u_def)
  have dm: "\<bar>m' - d / 2\<bar> \<le> 3 / 400"
    unfolding m'_def su [symmetric] using ds u' s du by (rule half_chroma_bound)
  have raw: "hslToRgb_raw (of_int H) (of_int S) (of_int L) =
     (hue2rgb (l' - m') (l' + m') (real_of_int H / 360 + 1 / 3),
      hue2rgb (l' - m') (l' + m') (real_of_int H / 360),
      hue2rgb (l' - m') (l' + m') (real_of_int H / 360 - 1 / 3))"
    unfolding l'_def m'_def u'_def by (rule hslToRgb_raw_form)
  have via: "rgb_via_hsl r g b =
     \<lparr>rgb_r = Math_round ((l' - m' + (l' + m' - (l' - m')) * hue2rgb 0 1 (real_of_int H / 360 + 1 / 3)) * 255),
      rgb_g = Math_round ((l' - m' + (l' + m' - (l' - m')) * hue2rgb 0 1 (real_of_int H / 360)) * 255),
      rgb_b = Math_round ((l' - m' + (l' + m' - (l' - m')) * hue2rgb 0 1 (real_of_int H / 360 - 1 / 3)) * 255)\<rparr>"
    unfolding rgb_via_hsl_def Let_def eq hslToRgb_def
    by (simp only: hsl.simps raw prod.case hue2rgb_affine [of "l' - m'" "l' + m'"])
  have chan: "\<bar>Math_round ((l' - m' + (l' + m' - (l' - m')) * hue2rgb 0 1 (real_of_int H / 360 + off)) * 255) - c\<bar> \<le> 5"
    if off: "- 1 / 3 \<le> off" "off \<le> 1 / 3" and c: "mn + d * hue2rgb 0 1 (h6 / 6 + off) = real_of_int c / 255"
    for off :: real and c :: int
  proof -
    have t: "- 1 \<le> h6 / 6 + off" "h6 / 6 + off \<le> 2" using h6 off by simp_all
    have t': "- 1 \<le> real_of_int H / 360 + off" "real_of_int H / 360 + off \<le> 2" using Hr off by simp_all
    have w': "0 \<le> hue2rgb 0 1 (real_of_int H / 360 + off)" "hue2rgb 0 1 (real_of_int H / 360 + off) \<le> 1"
      using weight_unit [OF t'] by simp_all
    have "\<bar>hue2rgb 0 1 (real_of_int H / 360 + off) - hue2rgb 0 1 (h6 / 6 + off)\<bar>
            \<le> 6 * \<bar>real_of_int H / 360 + off - (h6 / 6 + off)\<bar>"
      using t t' by (intro weight_lipschitz) simp_all
    then have dw: "\<bar>hue2rgb 0 1 (real_of_int H / 360 + off) - hue2rgb 0 1 (h6 / 6 + off)\<bar> \<le> 1 / 120"
      using dh by simp
    have cc: "real_of_int c = 255 * (l - d / 2 + d * hue2rgb 0 1 (h6 / 6 + off))"
      using c unfolding mnl by simp
    from dl dm _ d(2) w' dw cc show ?thesis
      by (rule channel_bound) (use d in simp)
  qed
  have cr: "\<bar>rgb_r (rgb_via_hsl r g b) - r\<bar> \<le> 5"
    unfolding via using chan [of "1 / 3" r] ex by (simp add: R_def)
  have cg: "\<bar>rgb_g (rgb_via_hsl r g b) - g\<bar> \<le> 5"
    unfolding via using chan [of 0 g] ex by (simp add: G_def)
  have cb: "\<bar>rgb_b (rgb_via_hsl r g b) - b\<bar> \<le> 5"
    unfolding via using chan [of "- 1 / 3" b] ex by (simp add: B_def)
  from cr cg cb show ?thesis by simp
qed

text \<open>
  Claim C1, amended. The round trip through the integer-rounded HSL triple keeps every
  channel of an RGB triple from 0..255 inside 0..255 and changes it by at most 5; for a
  grey triple (\<open>r = g = b\<close>) it changes each channel by at most 1. A change of 1 is
  exceeded: \<open>(2, 0, 0)\<close> comes back as \<open>(0, 0, 0)\<close>; and 5 is reached, at the green
  channel of \<open>(2, 234, 240)\<close>.
\<close>

theorem roundtrip_bound:
  assumes "0 \<le> r" "r \<le> 255" "0 \<le> g" "g \<le> 255" "0 \<le> b" "b \<le> 255"
  shows "rgb_ok (rgb_via_hsl r g b)
       \<and> \<bar>rgb_r (rgb_via_hsl r g b) - r\<bar> \<le> 5
       \<and> \<bar>rgb_g (rgb_via_hsl r g b) - g\<bar> \<le> 5
       \<and> \<bar>rgb_b (rgb_via_hsl r g b) - b\<bar> \<le> 5
       \<and> (r = g \<and> g = b \<longrightarrow>
            \<bar>rgb_r (rgb_via_hsl r g b) - r\<bar> \<le> 1
          \<and> \<bar>rgb_g (rgb_via_hsl r g b) - g\<bar> \<le> 1
          \<and> \<bar>rgb_b (rgb_via_hsl r g b) - b\<bar> \<le> 1)"
proof -
  have "0 \<le> hsl_h (rgbToHsl r g b) \<and> hsl_h (rgbToHsl r g b) \<le> 360
       \<and> 0 \<le> hsl_s (rgbToHsl r g b) \<and> hsl_s (rgbToHsl r g b) \<le> 100
       \<and> 0 \<le> hsl_l (rgbToHsl r g b) \<and> hsl_l (rgbToHsl r g b) \<le> 100"
    using assms by (intro rgbToHsl_range) simp_all
  then have ok: "rgb_ok (rgb_via_hsl r g b)"
    unfolding rgb_via_hsl_def Let_def by (intro hslToRgb_ok) simp_all
  have grey: "\<bar>rgb_r (rgb_via_hsl r g b) - r\<bar> \<le> 1
          \<and> \<bar>rgb_g (rgb_via_hsl r g b) - g\<bar> \<le> 1
          \<and> \<bar>rgb_b (rgb_via_hsl r g b) - b\<bar> \<le> 1" if "r = g \<and> g = b"
    using that gray_channel [of b] by (simp add: rgb_via_hsl_gray)
  have five: "\<bar>rgb_r (rgb_via_hsl r g b) - r\<bar> \<le> 5
       \<and> \<bar>rgb_g (rgb_via_hsl r g b) - g\<bar> \<le> 5
       \<and> \<bar>rgb_b (rgb_via_hsl r g b) - b\<bar> \<le> 5"
  proof (cases "r = g \<and> g = b")
    case True
    from grey [OF True] show ?thesis by linarith
  next
    case False
    with assms show ?thesis by (intro roundtrip_chromatic)
  qed
  from ok five grey show ?thesis by blast
qed

theorem roundtrip_bound_witness:
  "rgb_ok (rgb_via_hsl 128 128 128) \<and> \<bar>rgb_r (rgb_via_hsl 128 128 128) - 128\<bar> \<le> 1
     \<and> \<bar>rgb_g (rgb_via_hsl 128 128 128) - 128\<bar> \<le> 1
     \<and> \<bar>rgb_b (rgb_via_hsl 128 128 128) - 128\<bar> \<le> 1
     \<and> \<bar>rgb_g (rgb_via_hsl 2 234 240) - 234\<bar> \<le> 5"
  using roundtrip_bound [of 128 128 128] roundtrip_bound [of 2 234 240] by simp

theorem roundtrip_counterexample: "\<not> \<bar>rgb_r (rgb_via_hsl 2 0 0) - 2\<bar> \<le> 1"
  by (simp add: roundtrip_2_0_0)

lemma roundtrip_bound_attained:
  "rgb_via_hsl 2 234 240 = \<lparr>rgb_r = 2, rgb_g = 229, rgb_b = 237\<rparr>"
  by (simp add: rgb_via_hsl_def rgbToHsl_def hslToRgb_def hslToRgb_raw_def hue2rgb_def
      Math_round_def Let_def)

subsection \<open>Hue wrap-around\<close>



lemma hue_mod360_cases:
  "0 \<le> h \<Longrightarrow> h < 360 \<Longrightarrow> hue_mod360 h = h"
  "360 \<le> h \<Longrightarrow> h < 720 \<Longrightarrow> hue_mod360 h = h - 360"
  "- 360 \<le> h \<Longrightarrow> h < 0 \<Longrightarrow> hue_mod360 h = h + 360"
proof -
  show "0 \<le> h \<Longrightarrow> h < 360 \<Longrightarrow> hue_mod360 h = h"
  proof -
    assume "0 \<le> h" "h < 360"
    then have "\<lfloor>h / 360\<rfloor> = 0" by (intro floor_unique) simp_all
    then show ?thesis by (simp add: hue_mod360_def)
  qed
  show "360 \<le> h \<Longrightarrow> h < 720 \<Longrightarrow> hue_mod360 h = h - 360"
  proof -
    assume "360 \<le> h" "h < 720"
    then have "\<lfloor>h / 360\<rfloor> = 1" by (intro floor_unique) simp_all
    then show ?thesis by (simp add: hue_mod360_def)
  qed
  show "- 360 \<le> h \<Longrightarrow> h < 0 \<Longrightarrow> hue_mod360 h = h + 360"
  proof -
    assume "- 360 \<le> h" "h < 0"
    then have "\<lfloor>h / 360\<rfloor> = - 1" by (intro floor_unique) simp_all
    then show ?thesis by (simp add: hue_mod360_def)
  qed
qed







subsection \<open>Harmonies\<close>

lemma js_rem_nonneg: "0 \<le> a \<Longrightarrow> js_rem a 360 = a mod 360"
  by (simp add: js_rem_def)

lemma map_har_hsl: "map har_hsl (generateHarmonies c type) = harmony_hsls c type"
  by (simp add: generateHarmonies_def Let_def o_def)

lemma harmony_hsls_offsets:
  assumes "0 \<le> hsl_h c" "hsl_h c < 360"
  shows "harmony_hsls c type =
     map (\<lambda>off. \<lparr>hsl_h = (hsl_h c + off) mod 360, hsl_s = hsl_s c, hsl_l = hsl_l c\<rparr>)
       (harmony_offsets type)"
proof -
  have r: "js_rem (hsl_h c + k) 360 = (hsl_h c + k) mod 360" if "0 \<le> k" for k
    using assms that by (intro js_rem_nonneg) simp
  have m: "js_rem (hsl_h c - k + 360) 360 = (hsl_h c + - k) mod 360" if "k \<le> 360" for k
  proof -
    have "js_rem (hsl_h c - k + 360) 360 = (hsl_h c - k + 360) mod 360"
      using assms that by (intro js_rem_nonneg) simp
    also have "\<dots> = (hsl_h c - k) mod 360" by (rule mod_add_self2)
    finally show ?thesis by simp
  qed
  have m30: "js_rem (hsl_h c - 30 + 360) 360 = (hsl_h c + - 30) mod 360"
    by (rule m) simp
  have m15: "js_rem (hsl_h c - 15 + 360) 360 = (hsl_h c + - 15) mod 360"
    by (rule m) simp
  have base: "(hsl_h c + 0) mod 360 = hsl_h c" using assms by simp
  show ?thesis
    unfolding harmony_hsls_def harmony_offsets_def Let_def
    by (simp only: r m30 m15 base list.map if_distrib [of "map _"] cong: if_cong)
qed

lemma hue_mod360_period: "hue_mod360 (x + 360) = hue_mod360 x"
proof -
  have "\<lfloor>(x + 360) / 360\<rfloor> = \<lfloor>x / 360\<rfloor> + 1"
    by (simp add: add_divide_distrib)
  then show ?thesis by (simp add: hue_mod360_def algebra_simps)
qed

lemma js_fmod_nonneg: "0 \<le> a \<Longrightarrow> js_fmod a 360 = hue_mod360 a"
  by (simp add: js_fmod_def js_trunc_def hue_mod360_def)

lemma alt_harmony_offsets_eq:
  assumes "0 \<le> hsla_h (alt_currentColor st)" "hsla_h (alt_currentColor st) < 360"
  shows "alt_generateColorHarmony type st =
     map (\<lambda>off. (hue_mod360 (hsla_h (alt_currentColor st) + off),
                  hsla_s (alt_currentColor st), hsla_l (alt_currentColor st)))
       (alt_harmony_offsets type)"
proof -
  let ?h = "hsla_h (alt_currentColor st)"
  have r: "js_fmod (?h + k) 360 = hue_mod360 (?h + k)" if "0 \<le> k" for k
    using assms that by (intro js_fmod_nonneg) simp
  have m30: "js_fmod (?h - 30 + 360) 360 = hue_mod360 (?h + - 30)"
    using assms js_fmod_nonneg [of "?h - 30 + 360"] hue_mod360_period [of "?h - 30"] by simp
  have base: "hue_mod360 (?h + 0) = ?h" using assms by (simp add: hue_mod360_cases)
  show ?thesis
    unfolding alt_generateColorHarmony_def alt_harmony_offsets_def Let_def
    by (simp only: r m30 base list.map if_distrib [of "map _"] cong: if_cong)
qed

lemma triadic_350:
  "map (hsl_h \<circ> har_hsl) (generateHarmonies \<lparr>hsl_h = 350, hsl_s = 50, hsl_l = 50\<rparr> ''triadic'')
      = [350, 110, 230]"
  by (simp add: generateHarmonies_def harmony_hsls_def js_rem_def Let_def)

text \<open>
  Claim C8. For a base hue in \<open>[0,360)\<close>, the members that \<open>generateHarmonies\<close>
  (script.js) and \<open>generateColorHarmony\<close> (part_000) produce have the base hue plus the
  kind's offsets, reduced modulo 360 to a non-negative hue, and the base's saturation
  and lightness; triadic on hue 350 gives the hues 350, 110, 230 in this order.
\<close>

theorem harmony_members:
  assumes "0 \<le> hsl_h c" "hsl_h c < 360"
    and "0 \<le> hsla_h (alt_currentColor st)" "hsla_h (alt_currentColor st) < 360"
  shows "map har_hsl (generateHarmonies c type) =
           map (\<lambda>off. \<lparr>hsl_h = (hsl_h c + off) mod 360, hsl_s = hsl_s c, hsl_l = hsl_l c\<rparr>)
             (harmony_offsets type)
       \<and> alt_generateColorHarmony type st =
           map (\<lambda>off. (hue_mod360 (hsla_h (alt_currentColor st) + off),
                        hsla_s (alt_currentColor st), hsla_l (alt_currentColor st)))
             (alt_harmony_offsets type)
       \<and> map (hsl_h \<circ> har_hsl)
             (generateHarmonies \<lparr>hsl_h = 350, hsl_s = 50, hsl_l = 50\<rparr> ''triadic'')
           = [350, 110, 230]"
  using assms
  by (simp only: map_har_hsl harmony_hsls_offsets alt_harmony_offsets_eq triadic_350 simp_thms)

theorem harmony_members_witness:
  "map har_hsl (generateHarmonies \<lparr>hsl_h = 350, hsl_s = 50, hsl_l = 50\<rparr> ''triadic'') =
     [\<lparr>hsl_h = 350, hsl_s = 50, hsl_l = 50\<rparr>, \<lparr>hsl_h = 110, hsl_s = 50, hsl_l = 50\<rparr>,
      \<lparr>hsl_h = 230, hsl_s = 50, hsl_l = 50\<rparr>]
   \<and> alt_generateColorHarmony ''complementary'' (alt_constructor []) = [(0, 70, 40), (180, 70, 40)]"
  using harmony_members [of "\<lparr>hsl_h = 350, hsl_s = 50, hsl_l = 50\<rparr>" "alt_constructor []" "''triadic''"]
    harmony_members [of "\<lparr>hsl_h = 350, hsl_s = 50, hsl_l = 50\<rparr>" "alt_constructor []" "''complementary''"]
  by (simp add: harmony_offsets_def alt_harmony_offsets_def alt_constructor_def hue_mod360_def)

subsection \<open>The session invariant\<close>

lemma hex_digit_val_less: "hex_digit_val c = Some x \<Longrightarrow> x < 16"
proof -
  assume "hex_digit_val c = Some x"
  then have "(c, x) \<in> set hex_table"
    unfolding hex_digit_val_def by (rule map_of_SomeD)
  then have "x \<in> snd ` set hex_table" by force
  then show ?thesis by (auto simp: hex_table_def)
qed

lemma parse_hex_pair_byte:
  assumes "parse_hex_pair c d = Some n"
  shows "0 \<le> n \<and> n \<le> 255"
proof -
  from assms obtain x y where xy: "hex_digit_val c = Some x" "hex_digit_val d = Some y"
    and n: "n = int (16 * x + y)"
    by (auto simp: parse_hex_pair_def split: option.splits)
  from xy have "x < 16" "y < 16" by (auto dest: hex_digit_val_less)
  with n show ?thesis by simp
qed

lemma hexToRgb_ok: "hexToRgb text = Some c \<Longrightarrow> rgb_ok c"
  by (auto simp: hexToRgb_def rgb_ok_def split: list.splits option.splits
      dest!: parse_hex_pair_byte)

lemma updateColor_color [simp]:
  "currentColor (updateColor uh ur ul st) = currentColor st"
  "currentAlpha (updateColor uh ur ul st) = currentAlpha st"
  "isDragging (updateColor uh ur ul st) = isDragging st"
  "savedPalettes (updateColor uh ur ul st) = savedPalettes st"
  "storedPalettes (updateColor uh ur ul st) = storedPalettes st"
  by (simp_all add: updateColor_def Let_def)

lemma updateColor_controls:
  "hueSlider (updateColor uh ur ul st)
     = hsl_h (rgbToHsl (of_int (rgb_r (currentColor st))) (of_int (rgb_g (currentColor st)))
                (of_int (rgb_b (currentColor st))))"
  "hslInputs (updateColor uh ur True st)
     = (let c = rgbToHsl (of_int (rgb_r (currentColor st))) (of_int (rgb_g (currentColor st)))
                (of_int (rgb_b (currentColor st)))
        in (Some (hsl_h c), Some (hsl_s c), Some (hsl_l c)))"
  "hslInputs (updateColor uh ur False st) = hslInputs st"
  by (simp_all add: updateColor_def Let_def)

lemma rgbToHsl_of_ok:
  assumes "rgb_ok c"
  shows "0 \<le> hsl_h (rgbToHsl (of_int (rgb_r c)) (of_int (rgb_g c)) (of_int (rgb_b c)))"
    "hsl_h (rgbToHsl (of_int (rgb_r c)) (of_int (rgb_g c)) (of_int (rgb_b c))) \<le> 360"
    "0 \<le> hsl_s (rgbToHsl (of_int (rgb_r c)) (of_int (rgb_g c)) (of_int (rgb_b c)))"
    "hsl_s (rgbToHsl (of_int (rgb_r c)) (of_int (rgb_g c)) (of_int (rgb_b c))) \<le> 100"
    "0 \<le> hsl_l (rgbToHsl (of_int (rgb_r c)) (of_int (rgb_g c)) (of_int (rgb_b c)))"
    "hsl_l (rgbToHsl (of_int (rgb_r c)) (of_int (rgb_g c)) (of_int (rgb_b c))) \<le> 100"
  using rgbToHsl_range [of "of_int (rgb_r c)" "of_int (rgb_g c)" "of_int (rgb_b c)"] assms
  by (simp_all add: rgb_ok_def)

lemma controls_updateColor_all:
  assumes "rgb_ok (currentColor st)"
  shows "controls_inv (updateColor uh ur True st)"
  using rgbToHsl_of_ok [OF assms]
  by (simp add: controls_inv_def updateColor_controls Let_def in_range_def)

lemma controls_updateColor_keep:
  assumes "rgb_ok (currentColor st)"
    and "in_range 0 100 (fst (snd (hslInputs st)))" "in_range 0 100 (snd (snd (hslInputs st)))"
  shows "controls_inv (updateColor uh ur False st)"
  using rgbToHsl_of_ok [OF assms(1)] assms(2,3)
  by (simp add: controls_inv_def updateColor_controls)

lemma set_color_inv:
  assumes "rgb_ok c" "color_inv st"
  shows "session_inv (updateColor uh ur True (st\<lparr>currentColor := c\<rparr>))"
  using assms controls_updateColor_all [of "st\<lparr>currentColor := c\<rparr>" uh ur]
  by (simp add: session_inv_def color_inv_def)

lemma constructor_inv: "session_inv (constructor stored)"
  unfolding constructor_def session_inv_def
  by (simp add: color_inv_def controls_updateColor_all rgb_ok_def)

lemma drag_saturation:
  fixes px width :: real
  assumes "0 < width"
  shows "0 \<le> Math_round (max 0 (min width px) / width * 100)
       \<and> Math_round (max 0 (min width px) / width * 100) \<le> 100"
proof -
  have "0 \<le> max 0 (min width px) / width" using assms by simp
  moreover have "max 0 (min width px) / width \<le> 1" using assms by simp
  ultimately show ?thesis using Math_round_scaled [of "max 0 (min width px) / width" 100] by simp
qed

lemma drag_lightness:
  fixes py height :: real
  assumes "0 < height"
  shows "0 \<le> Math_round (100 - max 0 (min height py) / height * 100)
       \<and> Math_round (100 - max 0 (min height py) / height * 100) \<le> 100"
proof -
  have "0 \<le> max 0 (min height py) / height" using assms by simp
  moreover have "max 0 (min height py) / height \<le> 1" using assms by simp
  ultimately have "0 \<le> 100 - max 0 (min height py) / height * 100"
    "100 - max 0 (min height py) / height * 100 \<le> 100" by linarith+
  then show ?thesis
    using Math_round_bounds [of 0 "100 - max 0 (min height py) / height * 100" 100] by simp
qed

lemma handleFieldDrag_inv:
  assumes inv: "session_inv st" and pos: "0 < width" "0 < height"
  shows "session_inv (handleFieldDrag px py width height st)"
proof (cases "isDragging st")
  case False
  then show ?thesis using inv by (simp add: handleFieldDrag_def)
next
  case True
  have hue: "0 \<le> hueSlider st" "hueSlider st \<le> 360"
    using inv by (simp_all add: session_inv_def controls_inv_def)
  have "rgb_ok (hslToRgb (of_int (hueSlider st))
          (of_int (Math_round (max 0 (min width px) / width * 100)))
          (of_int (Math_round (100 - max 0 (min height py) / height * 100))))"
    using hue drag_saturation [OF pos(1), of px] drag_lightness [OF pos(2), of py]
    by (intro hslToRgb_ok) simp_all
  moreover have "color_inv st" using inv by (simp add: session_inv_def)
  ultimately have "session_inv (updateColor True True True
      (st\<lparr>currentColor := hslToRgb (of_int (hueSlider st))
          (of_int (Math_round (max 0 (min width px) / width * 100)))
          (of_int (Math_round (100 - max 0 (min height py) / height * 100)))\<rparr>))"
    by (rule set_color_inv)
  then show ?thesis
    using True by (simp add: handleFieldDrag_def Let_def)
qed

lemma startFieldDrag_inv:
  assumes inv: "session_inv st" and pos: "0 < width" "0 < height"
  shows "session_inv (startFieldDrag px py width height st)"
proof -
  have "session_inv (st\<lparr>isDragging := True\<rparr>)"
    using inv by (simp add: session_inv_def color_inv_def controls_inv_def)
  then show ?thesis unfolding startFieldDrag_def using pos by (rule handleFieldDrag_inv)
qed

lemma stopFieldDrag_inv: "session_inv st \<Longrightarrow> session_inv (stopFieldDrag st)"
  by (simp add: stopFieldDrag_def session_inv_def color_inv_def controls_inv_def)

lemma handleFieldKeydown_inv:
  assumes inv: "session_inv st"
  shows "\<exists>st'. handleFieldKeydown k shiftKey st = Some st' \<and> session_inv st'"
proof (cases "k = OtherKey")
  case True
  then show ?thesis using inv by (simp add: handleFieldKeydown_def)
next
  case False
  obtain ph ps pl where f: "hslInputs st = (ph, ps, pl)" by (cases "hslInputs st") auto
  from inv f obtain s l where sl: "ps = Some s" "pl = Some l"
    and r: "0 \<le> s" "s \<le> 100" "0 \<le> l" "l \<le> 100"
    by (auto simp: session_inv_def controls_inv_def in_range_def split: option.splits)
  have hue: "0 \<le> hueSlider st" "hueSlider st \<le> 360"
    using inv by (simp_all add: session_inv_def controls_inv_def)
  define step :: int where "step = (if shiftKey then 10 else 1)"
  define s' where "s' = (case k of ArrowLeft \<Rightarrow> max 0 (s - step)
     | ArrowRight \<Rightarrow> min 100 (s + step) | _ \<Rightarrow> s)"
  define l' where "l' = (case k of ArrowUp \<Rightarrow> min 100 (l + step)
     | ArrowDown \<Rightarrow> max 0 (l - step) | _ \<Rightarrow> l)"
  have s': "0 \<le> s'" "s' \<le> 100" using r by (auto simp: s'_def step_def split: key.splits)
  have l': "0 \<le> l'" "l' \<le> 100" using r by (auto simp: l'_def step_def split: key.splits)
  have ok: "rgb_ok (hslToRgb (of_int (hueSlider st)) (of_int s') (of_int l'))"
    using hue s' l' by (intro hslToRgb_ok) simp_all
  have "color_inv st" using inv by (simp add: session_inv_def)
  from set_color_inv [OF ok this]
  have "session_inv (updateColor True True True
      (st\<lparr>currentColor := hslToRgb (of_int (hueSlider st)) (of_int s') (of_int l')\<rparr>))" .
  moreover have "handleFieldKeydown k shiftKey st = Some (updateColor True True True
      (st\<lparr>currentColor := hslToRgb (of_int (hueSlider st)) (of_int s') (of_int l')\<rparr>))"
    using False by (simp add: handleFieldKeydown_def f sl s'_def l'_def step_def Let_def split: key.splits)
  ultimately show ?thesis by simp
qed

lemma handleHueChange_inv:
  assumes inv: "session_inv st" and v: "0 \<le> v" "v \<le> 360"
  shows "\<exists>st'. handleHueChange v st = Some st' \<and> session_inv st'"
proof -
  obtain ph ps pl where f: "hslInputs st = (ph, ps, pl)" by (cases "hslInputs st") auto
  from inv f obtain s l where sl: "ps = Some s" "pl = Some l"
    and r: "0 \<le> s" "s \<le> 100" "0 \<le> l" "l \<le> 100"
    by (auto simp: session_inv_def controls_inv_def in_range_def split: option.splits)
  have ok: "rgb_ok (hslToRgb (of_int v) (of_int s) (of_int l))"
    using v r by (intro hslToRgb_ok) simp_all
  have "color_inv (st\<lparr>hueSlider := v\<rparr>)" using inv by (simp add: session_inv_def color_inv_def)
  from set_color_inv [OF ok this]
  show ?thesis by (simp add: handleHueChange_def f sl)
qed

lemma handleAlphaChange_inv:
  assumes inv: "session_inv st" and v: "0 \<le> v" "v \<le> 1"
  shows "session_inv (handleAlphaChange v st)"
  using inv v controls_updateColor_all [of "st\<lparr>currentAlpha := v\<rparr>" True True]
  by (simp add: handleAlphaChange_def session_inv_def color_inv_def)

lemma set_hex_inv:
  assumes "session_inv st" "hexToRgb text = Some c"
  shows "session_inv (updateColor uh ur True (st\<lparr>currentColor := c\<rparr>))"
  using assms by (intro set_color_inv hexToRgb_ok) (simp_all add: session_inv_def)

lemma handleHexChange_inv:
  assumes inv: "session_inv st"
  shows "session_inv (handleHexChange text st)"
proof (cases "hexToRgb text")
  case None
  then show ?thesis
    using inv by (simp add: handleHexChange_def session_inv_def color_inv_def controls_inv_def)
next
  case (Some c)
  have "session_inv (st\<lparr>hexInput := text\<rparr>)"
    using inv by (simp add: session_inv_def color_inv_def controls_inv_def)
  from set_hex_inv [OF this Some] Some show ?thesis by (simp add: handleHexChange_def)
qed

lemma handleRgbChange_inv:
  assumes inv: "session_inv st"
    and n: "in_range 0 255 pr" "in_range 0 255 pg" "in_range 0 255 pb"
  shows "session_inv (handleRgbChange pr pg pb st)"
proof -
  have ok: "rgb_ok \<lparr>rgb_r = or_zero pr, rgb_g = or_zero pg, rgb_b = or_zero pb\<rparr>"
    using n by (auto simp: rgb_ok_def or_zero_def in_range_def split: option.splits)
  have "color_inv (st\<lparr>rgbInputs := (pr, pg, pb)\<rparr>)"
    using inv by (simp add: session_inv_def color_inv_def)
  from set_color_inv [OF ok this] show ?thesis by (simp add: handleRgbChange_def)
qed

lemma handleHslChange_inv:
  assumes inv: "session_inv st"
    and n: "ph = None \<or> in_range 0 360 ph" "in_range 0 100 ps" "in_range 0 100 pl"
  shows "session_inv (handleHslChange ph ps pl st)"
proof -
  have h: "0 \<le> or_zero ph" "or_zero ph \<le> 360"
    using n(1) by (auto simp: or_zero_def in_range_def split: option.splits)
  have s: "0 \<le> or_zero ps" "or_zero ps \<le> 100"
    using n(2) by (auto simp: or_zero_def in_range_def split: option.splits)
  have l: "0 \<le> or_zero pl" "or_zero pl \<le> 100"
    using n(3) by (auto simp: or_zero_def in_range_def split: option.splits)
  let ?c = "hslToRgb (of_int (or_zero ph)) (of_int (or_zero ps)) (of_int (or_zero pl))"
  let ?st = "st\<lparr>hslInputs := (ph, ps, pl), currentColor := ?c\<rparr>"
  have ok: "rgb_ok ?c" using h s l by (intro hslToRgb_ok) simp_all
  then have "controls_inv (updateColor True True False ?st)"
    using n by (intro controls_updateColor_keep) simp_all
  moreover have "color_inv (updateColor True True False ?st)"
    using inv ok by (simp add: session_inv_def color_inv_def)
  ultimately show ?thesis by (simp add: handleHslChange_def session_inv_def)
qed

lemma swatchClick_inv: "session_inv st \<Longrightarrow> session_inv (swatchClick hexv st)"
  by (auto simp: swatchClick_def set_hex_inv split: option.splits)

lemma handleEyeDropper_inv: "session_inv st \<Longrightarrow> session_inv (handleEyeDropper result st)"
  by (auto simp: handleEyeDropper_def set_hex_inv split: option.splits)

lemma loadPalette_inv: "session_inv st \<Longrightarrow> session_inv (loadPalette ident st)"
  by (auto simp: loadPalette_def set_hex_inv split: palettes.splits option.splits list.splits)

lemma handleImportPalette_inv: "session_inv st \<Longrightarrow> session_inv (handleImportPalette file st)"
  by (auto simp: handleImportPalette_def session_inv_def color_inv_def controls_inv_def
      split: import_file.splits palettes.splits)

lemma dispatch_inv:
  assumes "session_inv st" "nominal e"
  shows "\<exists>st'. dispatch e st = Some st' \<and> session_inv st'"
  using assms
  by (cases e)
     (simp_all add: handleFieldDrag_inv startFieldDrag_inv stopFieldDrag_inv handleHueChange_inv
        handleFieldKeydown_inv
        handleAlphaChange_inv handleHexChange_inv handleRgbChange_inv handleHslChange_inv
        swatchClick_inv handleEyeDropper_inv loadPalette_inv handleImportPalette_inv)

lemma reachable_nominal_inv: "reachable_nominal st \<Longrightarrow> session_inv st"
proof (induction rule: reachable_nominal.induct)
  case (nominal_init stored)
  show ?case by (rule constructor_inv)
next
  case (nominal_step st e st')
  from dispatch_inv [OF nominal_step.IH nominal_step.hyps(2)] nominal_step.hyps(3)
  show ?case by simp
qed

text \<open>
  Claim C2, amended. In every state reached from the constructor by nominal events,
  every nominal event (field drag or key, hue slider, alpha slider, hex text, RGB text,
  HSL text, swatch or palette pick, eye dropper, import) returns a state whose RGB channels
  are integers in 0..255 and whose alpha lies in 0..1. Numbers outside the nominal
  ranges are not clamped: an HSL text with lightness 200 leaves channels above 255.
\<close>

theorem nominal_events_keep_range:
  assumes "reachable_nominal st" "nominal e"
  shows "\<exists>st'. dispatch e st = Some st' \<and> color_inv st'"
  using dispatch_inv [OF reachable_nominal_inv [OF assms(1)] assms(2)]
  by (auto simp: session_inv_def)

theorem nominal_events_keep_range_witness:
  "reachable_nominal (constructor []) \<and> nominal (HueChange 120)
     \<and> dispatch (HueChange 120) (constructor []) \<noteq> None
     \<and> color_inv (the (dispatch (HueChange 120) (constructor [])))"
proof -
  have r: "reachable_nominal (constructor [])" by (rule nominal_init)
  have n: "nominal (HueChange 120)" by simp
  from nominal_events_keep_range [OF r n] r n show ?thesis by auto
qed

theorem hsl_text_out_of_range_counterexample:
  "reachable (handleHslChange (Some 243) (Some 75) (Some 200) (constructor []))
     \<and> \<not> color_inv (handleHslChange (Some 243) (Some 75) (Some 200) (constructor []))"
proof
  have "dispatch (HslChange (Some 243) (Some 75) (Some 200)) (constructor [])
          = Some (handleHslChange (Some 243) (Some 75) (Some 200) (constructor []))" by simp
  with reach_init [of "[]"]
  show "reachable (handleHslChange (Some 243) (Some 75) (Some 200) (constructor []))"
    by (rule reach_step)
next
  have "hslToRgb 243 75 200 = \<lparr>rgb_r = 682, rgb_g = 701, rgb_b = 319\<rparr>"
    by (simp add: hslToRgb_def hslToRgb_raw_def hue2rgb_def Math_round_def Let_def)
  then show "\<not> color_inv (handleHslChange (Some 243) (Some 75) (Some 200) (constructor []))"
    by (simp add: handleHslChange_def color_inv_def rgb_ok_def or_zero_def)
qed

subsection \<open>Views\<close>

lemma view_fields:
  "view_rgb (view st) = currentColor st"
  "view_hex (view st) = rgbToHex (of_int (rgb_r (currentColor st)))
      (of_int (rgb_g (currentColor st))) (of_int (rgb_b (currentColor st)))"
  "view_hsl (view st) = rgbToHsl (of_int (rgb_r (currentColor st)))
      (of_int (rgb_g (currentColor st))) (of_int (rgb_b (currentColor st)))"
  "contrastWhite (view st) = (contrastRatio (currentColor st) white,
      updateWcagBadge (contrastRatio (currentColor st) white))"
  "contrastBlack (view st) = (contrastRatio (currentColor st) black,
      updateWcagBadge (contrastRatio (currentColor st) black))"
  by (simp_all add: view_def updateContrastInfo_def Let_def)

lemma view_consistent_iff:
  "view_consistent st \<longleftrightarrow>
     hexToRgb (rgbToHex (of_int (rgb_r (currentColor st))) (of_int (rgb_g (currentColor st)))
                (of_int (rgb_b (currentColor st)))) = Some (currentColor st)"
  by (simp add: view_consistent_def Let_def view_fields)

lemma view_consistent_ok:
  assumes "rgb_ok (currentColor st)"
  shows "view_consistent st"
proof -
  have "hexToRgb (rgbToHex (of_int (rgb_r (currentColor st))) (of_int (rgb_g (currentColor st)))
          (of_int (rgb_b (currentColor st))))
        = Some \<lparr>rgb_r = rgb_r (currentColor st), rgb_g = rgb_g (currentColor st),
                 rgb_b = rgb_b (currentColor st)\<rparr>"
    using assms by (intro hex_round_trip) (simp_all add: rgb_ok_def)
  then show ?thesis by (simp add: view_consistent_iff)
qed

text \<open>
  Claim C4, amended. When an event leaves the current colour with all channels in
  0..255, as every nominal event in a session of nominal events does, the view computed
  from the resulting state is consistent: \<open>hexToRgb\<close> of its hex is its rgb, its hsl is
  \<open>rgbToHsl\<close> of its rgb, and both contrast figures are those of that same rgb, the
  session's current colour. \<open>rgbToHex\<close> clamps, so for a colour outside the range the hex
  denotes another colour.
\<close>

theorem view_consistent_in_range:
  assumes "dispatch e st = Some st'"
    and "rgb_ok (currentColor st') \<or> (reachable_nominal st \<and> nominal e)"
  shows "view_consistent st'"
proof -
  from assms(2) have "rgb_ok (currentColor st')"
  proof
    assume "rgb_ok (currentColor st')"
    then show ?thesis .
  next
    assume a: "reachable_nominal st \<and> nominal e"
    then have "session_inv st" by (simp add: reachable_nominal_inv)
    moreover from a have "nominal e" ..
    ultimately obtain st'' where "dispatch e st = Some st''" "session_inv st''"
      using dispatch_inv by blast
    with assms(1) have "session_inv st'" by simp
    then show ?thesis by (simp add: session_inv_def color_inv_def)
  qed
  then show ?thesis by (rule view_consistent_ok)
qed

lemma hexToRgb_FF0000: "hexToRgb ''#FF0000'' = Some \<lparr>rgb_r = 255, rgb_g = 0, rgb_b = 0\<rparr>"
  by (simp add: hexToRgb_def strip_hash_def parse_hex_pair_def hex_digit_val_def hex_table_def)

lemma red_state:
  "currentColor (handleHexChange ''#FF0000'' (constructor [])) = \<lparr>rgb_r = 255, rgb_g = 0, rgb_b = 0\<rparr>"
  by (simp add: handleHexChange_def hexToRgb_FF0000 Let_def)

lemma rgbToHsl_red: "rgbToHsl 255 0 0 = \<lparr>hsl_h = 0, hsl_s = 100, hsl_l = 50\<rparr>"
  by (simp add: rgbToHsl_def Let_def Math_round_def)

theorem view_consistent_in_range_witness:
  "dispatch (HexChange ''#FF0000'') (constructor [])
      = Some (handleHexChange ''#FF0000'' (constructor []))
   \<and> rgb_ok (currentColor (handleHexChange ''#FF0000'' (constructor [])))
   \<and> reachable_nominal (constructor []) \<and> nominal (HexChange ''#FF0000'')
   \<and> view_consistent (handleHexChange ''#FF0000'' (constructor []))
   \<and> view_rgb (view (handleHexChange ''#FF0000'' (constructor [])))
        = \<lparr>rgb_r = 255, rgb_g = 0, rgb_b = 0\<rparr>
   \<and> view_hsl (view (handleHexChange ''#FF0000'' (constructor [])))
        = \<lparr>hsl_h = 0, hsl_s = 100, hsl_l = 50\<rparr>"
proof -
  have d: "dispatch (HexChange ''#FF0000'') (constructor [])
      = Some (handleHexChange ''#FF0000'' (constructor []))" by simp
  have ok: "rgb_ok (currentColor (handleHexChange ''#FF0000'' (constructor [])))"
    by (simp add: red_state rgb_ok_def)
  have r: "reachable_nominal (constructor [])" by (rule nominal_init)
  have n: "nominal (HexChange ''#FF0000'')" by simp
  from r n have "rgb_ok (currentColor (handleHexChange ''#FF0000'' (constructor [])))
      \<or> (reachable_nominal (constructor []) \<and> nominal (HexChange ''#FF0000''))" by simp
  from view_consistent_in_range [OF d this] d ok r n show ?thesis
    by (simp add: view_fields red_state rgbToHsl_red)
qed

lemma hsl_200_state:
  "currentColor (handleHslChange (Some 243) (Some 75) (Some 200) (constructor []))
     = \<lparr>rgb_r = 682, rgb_g = 701, rgb_b = 319\<rparr>"
proof -
  have "hslToRgb 243 75 200 = \<lparr>rgb_r = 682, rgb_g = 701, rgb_b = 319\<rparr>"
    by (simp add: hslToRgb_def hslToRgb_raw_def hue2rgb_def Math_round_def Let_def)
  then show ?thesis by (simp add: handleHslChange_def or_zero_def)
qed

lemma toHex_ff: "toHex 682 = ''ff''" "toHex 701 = ''ff''" "toHex 319 = ''ff''"
  by (simp_all add: toHex_def Math_round_def toString16.simps hex_digits_def)

theorem view_inconsistent_counterexample:
  "dispatch (HslChange (Some 243) (Some 75) (Some 200)) (constructor [])
      = Some (handleHslChange (Some 243) (Some 75) (Some 200) (constructor []))
   \<and> \<not> view_consistent (handleHslChange (Some 243) (Some 75) (Some 200) (constructor []))"
  by (simp add: view_consistent_iff hsl_200_state rgbToHex_def toHex_ff hexToRgb_def
      strip_hash_def parse_hex_pair_def hex_digit_val_def hex_table_def)

text \<open>
  The fields of the channel that originated an edit keep the user's text: after an HSL
  edit they can show another triple than the hsl computed for the view.
\<close>

lemma hsl_fields_keep_text:
  "hslInputs (handleHslChange (Some 200) (Some 0) (Some 50) (constructor []))
      = (Some 200, Some 0, Some 50)
   \<and> view_hsl (view (handleHslChange (Some 200) (Some 0) (Some 50) (constructor [])))
      = \<lparr>hsl_h = 0, hsl_s = 0, hsl_l = 50\<rparr>"
proof -
  have c: "hslToRgb 200 0 50 = \<lparr>rgb_r = 128, rgb_g = 128, rgb_b = 128\<rparr>"
    by (simp add: hslToRgb_def hslToRgb_raw_def Math_round_def Let_def)
  have h: "rgbToHsl 128 128 128 = \<lparr>hsl_h = 0, hsl_s = 0, hsl_l = 50\<rparr>"
    by (simp add: rgbToHsl_def Let_def Math_round_def)
  show ?thesis
    by (simp add: handleHslChange_def updateColor_controls view_fields or_zero_def c h)
qed

lemma view_cong: "currentColor st' = currentColor st \<Longrightarrow> view st' = view st"
  by (simp add: view_def updateContrastInfo_def)

text \<open>
  Claim C10. The alpha-slider edit sets alpha and leaves the current colour and the
  palettes as they are; so the view (hex, rgb, hsl and both contrast figures) is the one
  before the edit. In part_000 the edit leaves hue, saturation, lightness, the derived
  RGB and the palettes as they are.
\<close>

theorem alpha_edit_frame:
  "currentAlpha (handleAlphaChange v st) = v
   \<and> currentColor (handleAlphaChange v st) = currentColor st
   \<and> savedPalettes (handleAlphaChange v st) = savedPalettes st
   \<and> view (handleAlphaChange v st) = view st
   \<and> hsla_h (alt_currentColor (alt_updateOpacityFromSlider px width ast))
        = hsla_h (alt_currentColor ast)
   \<and> hsla_s (alt_currentColor (alt_updateOpacityFromSlider px width ast))
        = hsla_s (alt_currentColor ast)
   \<and> hsla_l (alt_currentColor (alt_updateOpacityFromSlider px width ast))
        = hsla_l (alt_currentColor ast)
   \<and> alt_rgb (alt_updateOpacityFromSlider px width ast) = alt_rgb ast
   \<and> alt_savedPalettes (alt_updateOpacityFromSlider px width ast) = alt_savedPalettes ast"
proof -
  have c: "currentColor (handleAlphaChange v st) = currentColor st"
    by (simp add: handleAlphaChange_def)
  have w: "view (handleAlphaChange v st) = view st"
    using c by (rule view_cong)
  show ?thesis
    by (simp add: c w) (simp add: handleAlphaChange_def alt_updateOpacityFromSlider_def alt_rgb_def Let_def)
qed

theorem alpha_edit_frame_witness:
  "currentAlpha (handleAlphaChange (1 / 2) (constructor [])) = 1 / 2
   \<and> currentColor (handleAlphaChange (1 / 2) (constructor []))
        = \<lparr>rgb_r = 79, rgb_g = 70, rgb_b = 229\<rparr>
   \<and> view (handleAlphaChange (1 / 2) (constructor [])) = view (constructor [])"
  using alpha_edit_frame [of "1 / 2" "constructor []"] by (simp add: constructor_def)

subsection \<open>Hue and the grey axis\<close>

lemma constructor_fields:
  "currentColor (constructor stored) = \<lparr>rgb_r = 79, rgb_g = 70, rgb_b = 229\<rparr>"
  "currentAlpha (constructor stored) = 1"
  "isDragging (constructor stored) = False"
  "savedPalettes (constructor stored) = ContainerElement"
  "storedPalettes (constructor stored) = stored"
  by (simp_all add: constructor_def)

lemma rgbToHsl_default: "rgbToHsl 79 70 229 = \<lparr>hsl_h = 243, hsl_s = 75, hsl_l = 59\<rparr>"
  by (simp add: rgbToHsl_def Let_def Math_round_def)

lemma constructor_hue: "hueSlider (constructor stored) = 243"
  by (simp add: constructor_def updateColor_controls rgbToHsl_default)

lemma hslToRgb_243_0_50: "hslToRgb 243 0 50 = \<lparr>rgb_r = 128, rgb_g = 128, rgb_b = 128\<rparr>"
  by (simp add: hslToRgb_def hslToRgb_raw_def Math_round_def Let_def)

lemma rgbToHsl_128: "rgbToHsl 128 128 128 = \<lparr>hsl_h = 0, hsl_s = 0, hsl_l = 50\<rparr>"
  by (simp add: rgbToHsl_def Let_def Math_round_def)

lemma hslToRgb_0_75_59: "hslToRgb 0 75 59 = \<lparr>rgb_r = 229, rgb_g = 72, rgb_b = 72\<rparr>"
  by (simp add: hslToRgb_def hslToRgb_raw_def hue2rgb_def Math_round_def Let_def)

lemma rgbToHsl_229_72_72: "rgbToHsl 229 72 72 = \<lparr>hsl_h = 0, hsl_s = 75, hsl_l = 59\<rparr>"
  by (simp add: rgbToHsl_def Let_def Math_round_def)

lemma drag_to_grey:
  "currentColor (startFieldDrag 0 50 100 100 (constructor [])) = \<lparr>rgb_r = 128, rgb_g = 128, rgb_b = 128\<rparr>"
  "hueSlider (startFieldDrag 0 50 100 100 (constructor [])) = 0"
  "isDragging (startFieldDrag 0 50 100 100 (constructor []))"
  by (simp_all add: startFieldDrag_def handleFieldDrag_def Let_def constructor_hue
      updateColor_controls Math_round_def hslToRgb_243_0_50 rgbToHsl_128)

lemma drag_back:
  "currentColor (handleFieldDrag 75 41 100 100 (startFieldDrag 0 50 100 100 (constructor [])))
     = \<lparr>rgb_r = 229, rgb_g = 72, rgb_b = 72\<rparr>"
  "hueSlider (handleFieldDrag 75 41 100 100 (startFieldDrag 0 50 100 100 (constructor []))) = 0"
  by (simp_all add: handleFieldDrag_def [of _ _ _ _ "startFieldDrag 0 50 100 100 (constructor [])"]
      Let_def drag_to_grey updateColor_controls Math_round_def hslToRgb_0_75_59 rgbToHsl_229_72_72)

text \<open>
  Claim C6, on script.js at a concrete session. The constructor's colour has hue 243.
  A press on the field at saturation 0 gives a grey, for which \<open>updateColor\<close> writes hue 0
  into the slider; a move back to saturation 75 and lightness 59 reads that slider and
  yields a colour of hue 0, not 243. The claim asks for hue 243 there.
\<close>

theorem hue_reset_by_grey:
  "hsl_h (view_hsl (view (constructor []))) = 243
   \<and> hsl_s (view_hsl (view (startFieldDrag 0 50 100 100 (constructor [])))) = 0
   \<and> view_hsl (view (handleFieldDrag 75 41 100 100 (startFieldDrag 0 50 100 100 (constructor []))))
        = \<lparr>hsl_h = 0, hsl_s = 75, hsl_l = 59\<rparr>
   \<and> hueSlider (handleFieldDrag 75 41 100 100 (startFieldDrag 0 50 100 100 (constructor []))) = 0"
  by (simp add: view_fields constructor_fields drag_to_grey drag_back rgbToHsl_default
      rgbToHsl_128 rgbToHsl_229_72_72)

text \<open>
  In part_000 the same edit keeps the hue.
\<close>

lemma alt_updateColorFromArea_hue:
  "hsla_h (alt_currentColor (alt_updateColorFromArea px py width height ast))
     = hsla_h (alt_currentColor ast)"
  by (simp add: alt_updateColorFromArea_def Let_def)

text \<open>
  In script.js every press at saturation 0 writes hue 0 into the slider, whatever the
  hue was.
\<close>

lemma grey_resets_hue:
  assumes "0 < width"
  shows "hueSlider (startFieldDrag 0 py width height st) = 0"
proof -
  have z: "max 0 (min width 0) / width * 100 = 0" using assms by simp
  have "hueSlider (updateColor True True True (st'\<lparr>currentColor := hslToRgb h 0 l\<rparr>)) = 0"
    for st' h l
    by (simp add: updateColor_controls hslToRgb_gray rgbToHsl_gray)
  then show ?thesis
    by (simp add: startFieldDrag_def handleFieldDrag_def Let_def z Math_round_0)
qed

subsection \<open>Palette import\<close>

text \<open>
  No handler assigns \<open>savedPalettes\<close> while it holds the element, and none writes the
  stored palettes then. So in every state of a session the property holds the element,
  local storage holds what it held at the start, and an import changes nothing.
\<close>

lemma dispatch_palettes:
  assumes "dispatch e st = Some st'" "savedPalettes st = ContainerElement"
  shows "savedPalettes st' = ContainerElement \<and> storedPalettes st' = storedPalettes st"
proof (cases e)
  case (FieldDown px py w h)
  with assms show ?thesis
    by (auto simp: startFieldDrag_def handleFieldDrag_def Let_def)
next
  case (FieldMove px py w h)
  with assms show ?thesis
    by (auto simp: handleFieldDrag_def Let_def)
next
  case FieldUp
  with assms show ?thesis by (auto simp: stopFieldDrag_def)
next
  case (FieldKey k shiftKey)
  with assms show ?thesis
    by (auto simp: handleFieldKeydown_def Let_def
        split: option.splits if_splits key.splits prod.splits)
next
  case (HueChange v)
  with assms show ?thesis
    by (auto simp: handleHueChange_def Let_def split: option.splits if_splits prod.splits)
next
  case (AlphaChange v)
  with assms show ?thesis by (auto simp: handleAlphaChange_def)
next
  case (HexChange hx)
  with assms show ?thesis
    by (auto simp: handleHexChange_def Let_def split: option.splits if_splits)
next
  case (RgbChange pr pg pb)
  with assms show ?thesis by (auto simp: handleRgbChange_def Let_def)
next
  case (HslChange ph ps pl)
  with assms show ?thesis by (auto simp: handleHslChange_def Let_def)
next
  case (SwatchClick hexv)
  with assms show ?thesis by (auto simp: swatchClick_def split: option.splits)
next
  case (LoadPalette ident)
  with assms show ?thesis by (auto simp: loadPalette_def)
next
  case (EyeDropper result)
  with assms show ?thesis by (auto simp: handleEyeDropper_def split: option.splits)
next
  case (ImportPalette f)
  with assms show ?thesis by (auto simp: handleImportPalette_def split: import_file.splits)
qed

lemma reachable_palettes:
  "reachable st \<Longrightarrow> savedPalettes st = ContainerElement"
proof (induction rule: reachable.induct)
  case (reach_init stored)
  show ?case by (simp add: constructor_fields)
next
  case (reach_step st e st')
  then show ?case using dispatch_palettes [of e st st'] by simp
qed

lemma import_reachable:
  "reachable st \<Longrightarrow> handleImportPalette file st = st"
  by (simp add: handleImportPalette_def reachable_palettes split: import_file.splits)

text \<open>
  The assignment of the import as written, on a session whose property would hold
  the array: the palettes of the file are appended as they are, identifiers included,
  and stored. The handler has no step that assigns an identifier.
\<close>

lemma import_into_array:
  assumes "savedPalettes st = PaletteArray palettes"
  shows "savedPalettes (handleImportPalette (Array imported) st) = PaletteArray (palettes @ imported)"
    and "storedPalettes (handleImportPalette (Array imported) st) = palettes @ imported"
  using assms by (simp_all add: handleImportPalette_def)


subsection \<open>Text edits\<close>

text \<open>
  Claim C3, on script.js at a concrete session. With the colour (79, 70, 229), an RGB
  edit whose red field does not parse sets the colour to (0, 70, 229), and one whose red
  field holds 300 sets the red channel to 300; an HSL edit whose saturation field does
  not parse sets a grey. The claim asks that the colour stay as it was.
\<close>

theorem rgb_text_unparsable_applied:
  "currentColor (constructor []) = \<lparr>rgb_r = 79, rgb_g = 70, rgb_b = 229\<rparr>
   \<and> currentColor (handleRgbChange None (Some 70) (Some 229) (constructor []))
        = \<lparr>rgb_r = 0, rgb_g = 70, rgb_b = 229\<rparr>
   \<and> currentColor (handleRgbChange (Some 300) (Some 70) (Some 229) (constructor []))
        = \<lparr>rgb_r = 300, rgb_g = 70, rgb_b = 229\<rparr>
   \<and> currentColor (handleHslChange (Some 243) None (Some 59) (constructor []))
        = \<lparr>rgb_r = 150, rgb_g = 150, rgb_b = 150\<rparr>"
proof -
  have "hslToRgb 243 0 59 = \<lparr>rgb_r = 150, rgb_g = 150, rgb_b = 150\<rparr>"
    by (simp add: hslToRgb_def hslToRgb_raw_def Math_round_def Let_def)
  then show ?thesis
    by (simp add: constructor_fields handleRgbChange_def handleHslChange_def or_zero_def)
qed

lemma handleRgbChange_color:
  "currentColor (handleRgbChange pr pg pb st)
     = \<lparr>rgb_r = or_zero pr, rgb_g = or_zero pg, rgb_b = or_zero pb\<rparr>"
  by (simp add: handleRgbChange_def)

text \<open>
  The hex edit of script.js and the three text edits of part_000 leave the colour as it
  was when the text fails the check.
\<close>

lemma handleHexChange_invalid:
  assumes "hexToRgb text = None"
  shows "currentColor (handleHexChange text st) = currentColor st"
    "currentAlpha (handleHexChange text st) = currentAlpha st"
  using assms by (simp_all add: handleHexChange_def)

lemma alt_handleHexInput_invalid: "hexToRgb text = None \<Longrightarrow> alt_handleHexInput text ast = ast"
  by (simp add: alt_handleHexInput_def)

lemma alt_handleRgbInput_invalid:
  "length values \<noteq> 3 \<or> \<not> list_all (in_range 0 255) values \<Longrightarrow> alt_handleRgbInput values ast = ast"
  by (auto simp: alt_handleRgbInput_def)

lemma alt_handleHslInput_invalid:
  "length values \<noteq> 3 \<or> None \<in> set values \<Longrightarrow> alt_handleHslInput values ast = ast"
  by (auto simp: alt_handleHslInput_def list_all_iff)

end
